theory Spec2Isabelle
  imports Main
begin

text \<open>
  The clipboard-history capture pipeline of EcoPaste: the listener that debounces
  clipboard notifications (\<open>useClipboard\<close>), the multi-format reader with its retry
  loop (\<open>readClipboardWithRetry\<close>), and the pass that builds one record from a
  snapshot, looks for a duplicate and updates the store and the in-memory list
  (\<open>processClipboard\<close>). The sources hold two revisions of the hook and of the reader;
  the model follows the revision that has \<open>processClipboard\<close>, the debounce timer, the
  zero-byte image guard, the image match on dimensions and the Windows image fallback.
  The other revision runs the same record builder and upsert directly in the listener,
  without those four.
\<close>

section \<open>Data model\<close>

text \<open>
  A value thrown by an awaited call. \<open>lastError\<close> of the retry loop starts out
  \<open>undefined\<close>, so \<open>Undefined\<close> is a value of the type.
\<close>

datatype err = Undefined | Err string

text \<open>
  The formats of \<open>ReadClipboard\<close> (tauri-plugin-clipboard-x-api). The \<open>type\<close> tag
  of an entry is a literal fixed by the field that holds it (\<open>type: "text"\<close> under
  \<open>result.text\<close>, and so on), so an entry carries only its \<open>count\<close> and \<open>value\<close>
  (and the image's \<open>width\<close> and \<open>height\<close>); the tag is written when the entry is
  assigned to a record.
\<close>

datatype ctype = Text | Rtf | Html | Image | Files

record text_format =
  t_count :: nat
  t_value :: string

record image_format =
  i_count :: nat
  i_value :: string
  i_width :: nat
  i_height :: nat

record files_format =
  f_count :: nat
  f_value :: "string list"

record ReadClipboard =
  rc_text :: "text_format option"
  rc_rtf :: "text_format option"
  rc_html :: "text_format option"
  rc_image :: "image_format option"
  rc_files :: "files_format option"

definition empty_result :: ReadClipboard where
  "empty_result =
     \<lparr>rc_text = None, rc_rtf = None, rc_html = None, rc_image = None, rc_files = None\<rparr>"

text \<open>What \<open>readImage\<close> (and the Windows fallback) and \<open>readFiles\<close> resolve to.\<close>

record ReadImage =
  ri_path :: string
  ri_size :: nat
  ri_width :: nat
  ri_height :: nat

record ReadFiles =
  rf_paths :: "string list"
  rf_size :: nat

text \<open>
  The native clipboard as one read attempt sees it: every awaited call either rejects
  (\<open>Inl\<close>) or resolves (\<open>Inr\<close>). \<open>has_clipboard_image_win\<close> and
  \<open>read_clipboard_image_win\<close> are the raw \<open>invoke\<close> results, before the
  \<open>.catch\<close> of their wrappers.
\<close>

record native =
  hasText :: "err + bool"
  readText :: "err + string"
  hasRTF :: "err + bool"
  readRTF :: "err + string"
  hasHTML :: "err + bool"
  readHTML :: "err + string"
  hasImage :: "err + bool"
  readImage :: "err + ReadImage"
  has_clipboard_image_win :: "err + bool"
  read_clipboard_image_win :: "err + ReadImage option"
  hasFiles :: "err + bool"
  readFiles :: "err + ReadFiles"

text \<open>
  The persisted record (\<open>DatabaseSchemaHistory\<close>). \<open>value\<close> is a string, or the
  path array of a files capture before it is serialised. Fields that the record
  builder has not assigned yet are \<open>undefined\<close> (\<open>None\<close>).
\<close>

datatype subtype = Url | Email | Color | Path

datatype grp = GText | GFiles | GImage

datatype payload = Str string | Paths "string list"

record history =
  h_createTime :: string
  h_favorite :: bool
  h_group :: grp
  h_id :: string
  h_search :: "string option"
  h_type :: "ctype option"
  h_value :: "payload option"
  h_count :: "nat option"
  h_width :: "nat option"
  h_height :: "nat option"
  h_subtype :: "subtype option"

section \<open>Effects\<close>

text \<open>
  Everything a pass does beyond computing values is recorded, in program order, in a
  trace: the log lines, the user-visible \<open>message.warning\<close>, the inter-attempt
  delay, and the calls on the store and on the in-memory list.
\<close>

datatype logmsg =
    ReadFormatFailed ctype nat err
  | AllAttemptsFailed nat err
  | ReadFailedAfterRetries err
  | NoRecognizedType
  | ZeroByteImage
  | ProcessingFailed err

datatype effect =
    LogWarn logmsg
  | LogError logmsg
  | MessageWarning string
  | Delay nat
  | SelectHistory
  | UpdateHistory string string
  | InsertHistory history
  | ListRemove string
  | ListUnshift history

section \<open>Multi-format reader\<close>

definition RETRY_COUNT :: nat where
  "RETRY_COUNT = 3"

definition RETRY_DELAY_MS :: nat where
  "RETRY_DELAY_MS = 200"

text \<open>
  \<open>if (await hasX()) { const x = await readX(); ... }\<close>: the probe or the read may
  reject; otherwise the value read, if the format is present.
\<close>

definition probe_read :: "err + bool \<Rightarrow> err + 'a \<Rightarrow> err + 'a option" where
  "probe_read has rd =
     (case has of
        Inl e \<Rightarrow> Inl e
      | Inr False \<Rightarrow> Inr None
      | Inr True \<Rightarrow> (case rd of Inl e \<Rightarrow> Inl e | Inr v \<Rightarrow> Inr (Some v)))"

text \<open>The two Windows wrappers swallow a rejection: \<open>.catch(() => false)\<close>, \<open>.catch(() => null)\<close>.\<close>

definition hasClipboardImageWin :: "native \<Rightarrow> bool" where
  "hasClipboardImageWin n = (case has_clipboard_image_win n of Inl e \<Rightarrow> False | Inr b \<Rightarrow> b)"

definition readClipboardImageWin :: "native \<Rightarrow> ReadImage option" where
  "readClipboardImageWin n = (case read_clipboard_image_win n of Inl e \<Rightarrow> None | Inr r \<Rightarrow> r)"

text \<open>
  The five \<open>try\<close> blocks of one attempt. Each takes the snapshot built so far and
  returns the thrown error or the snapshot, with the log lines it wrote.
\<close>

definition read_text_block ::
  "native \<Rightarrow> nat \<Rightarrow> ReadClipboard \<Rightarrow> (err + ReadClipboard) \<times> effect list" where
  "read_text_block n attempt result =
     (case probe_read (hasText n) (readText n) of
        Inl e \<Rightarrow> (Inl e, [LogWarn (ReadFormatFailed Text attempt e)])
      | Inr None \<Rightarrow> (Inr result, [])
      | Inr (Some text) \<Rightarrow>
          (Inr (result\<lparr>rc_text := Some \<lparr>t_count = length text, t_value = text\<rparr>\<rparr>), []))"

definition read_rtf_block ::
  "native \<Rightarrow> nat \<Rightarrow> ReadClipboard \<Rightarrow> (err + ReadClipboard) \<times> effect list" where
  "read_rtf_block n attempt result =
     (case probe_read (hasRTF n) (readRTF n) of
        Inl e \<Rightarrow>
          (if rc_text result = None then Inl e else Inr result,
           [LogWarn (ReadFormatFailed Rtf attempt e)])
      | Inr None \<Rightarrow> (Inr result, [])
      | Inr (Some rtf) \<Rightarrow>
          (Inr (result\<lparr>rc_rtf := Some
             \<lparr>t_count = (case rc_text result of Some t \<Rightarrow> t_count t | None \<Rightarrow> length rtf),
              t_value = rtf\<rparr>\<rparr>), []))"

definition read_html_block ::
  "native \<Rightarrow> nat \<Rightarrow> ReadClipboard \<Rightarrow> (err + ReadClipboard) \<times> effect list" where
  "read_html_block n attempt result =
     (case probe_read (hasHTML n) (readHTML n) of
        Inl e \<Rightarrow>
          (if rc_text result = None then Inl e else Inr result,
           [LogWarn (ReadFormatFailed Html attempt e)])
      | Inr None \<Rightarrow> (Inr result, [])
      | Inr (Some html) \<Rightarrow>
          (Inr (result\<lparr>rc_html := Some
             \<lparr>t_count = (case rc_text result of Some t \<Rightarrow> t_count t | None \<Rightarrow> length html),
              t_value = html\<rparr>\<rparr>), []))"

text \<open>
  The body of the image \<open>try\<close>: the primary probe and read, else the Windows probe,
  whose read is folded in only when it is non-null with a positive size.
\<close>

definition image_probe :: "native \<Rightarrow> err + ReadImage option" where
  "image_probe n =
     (case hasImage n of
        Inl e \<Rightarrow> Inl e
      | Inr True \<Rightarrow> (case readImage n of Inl e \<Rightarrow> Inl e | Inr r \<Rightarrow> Inr (Some r))
      | Inr False \<Rightarrow>
          (if hasClipboardImageWin n then
             (case readClipboardImageWin n of
                Some winImage \<Rightarrow> if ri_size winImage > 0 then Inr (Some winImage) else Inr None
              | None \<Rightarrow> Inr None)
           else Inr None))"

definition read_image_block ::
  "native \<Rightarrow> nat \<Rightarrow> ReadClipboard \<Rightarrow> (err + ReadClipboard) \<times> effect list" where
  "read_image_block n attempt result =
     (case image_probe n of
        Inl e \<Rightarrow>
          (if rc_text result = None \<and> rc_html result = None \<and> rc_rtf result = None
           then Inl e else Inr result,
           [LogWarn (ReadFormatFailed Image attempt e)])
      | Inr None \<Rightarrow> (Inr result, [])
      | Inr (Some r) \<Rightarrow>
          (Inr (result\<lparr>rc_image := Some
             \<lparr>i_count = ri_size r, i_value = ri_path r,
              i_width = ri_width r, i_height = ri_height r\<rparr>\<rparr>), []))"

definition read_files_block ::
  "native \<Rightarrow> nat \<Rightarrow> ReadClipboard \<Rightarrow> (err + ReadClipboard) \<times> effect list" where
  "read_files_block n attempt result =
     (case probe_read (hasFiles n) (readFiles n) of
        Inl e \<Rightarrow>
          (if rc_text result = None \<and> rc_html result = None \<and> rc_rtf result = None
              \<and> rc_image result = None
           then Inl e else Inr result,
           [LogWarn (ReadFormatFailed Files attempt e)])
      | Inr None \<Rightarrow> (Inr result, [])
      | Inr (Some r) \<Rightarrow>
          (Inr (result\<lparr>rc_files := Some \<lparr>f_count = rf_size r, f_value = rf_paths r\<rparr>\<rparr>), []))"

text \<open>Sequencing inside the outer \<open>try\<close>: a throw skips the blocks that follow.\<close>

fun and_then ::
  "(err + 'a) \<times> effect list \<Rightarrow> ('a \<Rightarrow> (err + 'b) \<times> effect list) \<Rightarrow> (err + 'b) \<times> effect list"
  where
  "and_then (Inl e, l) f = (Inl e, l)"
| "and_then (Inr a, l) f = (case f a of (r, l') \<Rightarrow> (r, l @ l'))"

text \<open>
  One attempt runs the five blocks in source order, starting from \<open>result = {}\<close>.
  The prefixes are named so that the snapshot a block starts from can be referred to.
\<close>

definition through_text :: "native \<Rightarrow> nat \<Rightarrow> (err + ReadClipboard) \<times> effect list" where
  "through_text n attempt = read_text_block n attempt empty_result"

definition through_rtf :: "native \<Rightarrow> nat \<Rightarrow> (err + ReadClipboard) \<times> effect list" where
  "through_rtf n attempt = and_then (through_text n attempt) (read_rtf_block n attempt)"

definition through_html :: "native \<Rightarrow> nat \<Rightarrow> (err + ReadClipboard) \<times> effect list" where
  "through_html n attempt = and_then (through_rtf n attempt) (read_html_block n attempt)"

definition through_image :: "native \<Rightarrow> nat \<Rightarrow> (err + ReadClipboard) \<times> effect list" where
  "through_image n attempt = and_then (through_html n attempt) (read_image_block n attempt)"

definition read_attempt :: "native \<Rightarrow> nat \<Rightarrow> (err + ReadClipboard) \<times> effect list" where
  "read_attempt n attempt = and_then (through_image n attempt) (read_files_block n attempt)"

text \<open>
  The retry loop \<open>for (attempt = 1; attempt <= RETRY_COUNT; attempt++)\<close>. The clipboard
  may differ from one attempt to the next, so the loop reads \<open>clip attempt\<close>. After
  the loop the error is logged and \<open>lastError\<close> is thrown.
\<close>

function retry_loop ::
  "(nat \<Rightarrow> native) \<Rightarrow> nat \<Rightarrow> err \<Rightarrow> (err + ReadClipboard) \<times> effect list" where
  "retry_loop clip attempt lastError =
     (if attempt \<le> RETRY_COUNT then
        (case read_attempt (clip attempt) attempt of
           (Inr result, l) \<Rightarrow> (Inr result, l)
         | (Inl e, l) \<Rightarrow>
             (case retry_loop clip (attempt + 1) e of
                (r, l') \<Rightarrow>
                  (r, l @ (if attempt < RETRY_COUNT then [Delay RETRY_DELAY_MS] else []) @ l')))
      else (Inl lastError, [LogError (AllAttemptsFailed RETRY_COUNT lastError)]))"
  by pat_completeness auto
termination
  by (relation "measure (\<lambda>(clip, attempt, lastError). Suc RETRY_COUNT - attempt)") auto

declare retry_loop.simps [simp del]

definition readClipboardWithRetry :: "(nat \<Rightarrow> native) \<Rightarrow> (err + ReadClipboard) \<times> effect list" where
  "readClipboardWithRetry clip = retry_loop clip 1 Undefined"

section \<open>Classifier and record builder\<close>

text \<open>
  What one pass reads besides the clipboard: the \<open>copyPlain\<close> preference, the clock
  and the id generator, the predicates of \<open>@/utils/is\<close>, the file-system calls, and
  \<open>JSON.stringify\<close>. None of them is defined in the sources at hand, so they are
  parameters. \<open>fullName\<close> is applied to \<open>data.value\<close> as it is.
\<close>

record cfg =
  copyPlain :: bool
  formatDate :: string
  nanoid :: string
  isURL :: "string \<Rightarrow> bool"
  isEmail :: "string \<Rightarrow> bool"
  isColor :: "string \<Rightarrow> bool"
  fs_exists :: "string \<Rightarrow> err + bool"
  fullName :: "payload option \<Rightarrow> err + string"
  stringify :: "payload \<Rightarrow> string"

text \<open>\<open>getClipboardTextSubtype\<close>: the \<open>catch\<close> turns a rejected \<open>exists\<close> into \<open>undefined\<close>.\<close>

definition getClipboardTextSubtype :: "cfg \<Rightarrow> string \<Rightarrow> subtype option" where
  "getClipboardTextSubtype c v =
     (if isURL c v then Some Url
      else if isEmail c v then Some Email
      else if isColor c v then Some Color
      else (case fs_exists c v of
              Inl e \<Rightarrow> None
            | Inr True \<Rightarrow> Some Path
            | Inr False \<Rightarrow> None))"

text \<open>\<open>Array.prototype.join\<close> on strings.\<close>

fun join :: "string \<Rightarrow> string list \<Rightarrow> string" where
  "join sep [] = []"
| "join sep [x] = x"
| "join sep (x # y # ys) = x @ sep @ join sep (y # ys)"

text \<open>
  \<open>a || b || c || ""\<close> on optional strings: \<open>undefined\<close> and the empty string are
  falsy, so the first non-empty operand is the value, and \<open>""\<close> when there is none.
\<close>

fun first_truthy :: "string option list \<Rightarrow> string" where
  "first_truthy [] = []"
| "first_truthy (None # xs) = first_truthy xs"
| "first_truthy (Some s # xs) = (if s = [] then first_truthy xs else s)"

text \<open>The object literal \<open>data\<close> starts from, and the \<open>Object.assign\<close> of each format.\<close>

definition new_data :: "cfg \<Rightarrow> ReadClipboard \<Rightarrow> history" where
  "new_data c result =
     \<lparr>h_createTime = formatDate c, h_favorite = False, h_group = GText, h_id = nanoid c,
      h_search = map_option t_value (rc_text result),
      h_type = None, h_value = None, h_count = None, h_width = None, h_height = None,
      h_subtype = None\<rparr>"

definition assign_text_format :: "ctype \<Rightarrow> text_format \<Rightarrow> history \<Rightarrow> history" where
  "assign_text_format ty e data =
     data\<lparr>h_count := Some (t_count e), h_type := Some ty, h_value := Some (Str (t_value e))\<rparr>"

definition assign_image :: "image_format \<Rightarrow> history \<Rightarrow> history" where
  "assign_image e data =
     data\<lparr>h_count := Some (i_count e), h_type := Some Image, h_value := Some (Str (i_value e)),
          h_width := Some (i_width e), h_height := Some (i_height e)\<rparr>"

definition assign_files :: "files_format \<Rightarrow> history \<Rightarrow> history" where
  "assign_files e data =
     data\<lparr>h_count := Some (f_count e), h_type := Some Files, h_value := Some (Paths (f_value e))\<rparr>"

text \<open>
  The branch chain of \<open>processClipboard\<close>. A format is truthy exactly when the reader
  has set it (an entry is an object), so \<open>if (files)\<close> is \<open>rc_files result \<noteq> None\<close>.
\<close>

definition build_record :: "cfg \<Rightarrow> ReadClipboard \<Rightarrow> history" where
  "build_record c result =
     (let data = new_data c result in
      if rc_files result \<noteq> None then
        (assign_files (the (rc_files result)) data)
          \<lparr>h_group := GFiles, h_search := Some (join '' '' (f_value (the (rc_files result))))\<rparr>
      else if rc_html result \<noteq> None \<and> \<not> copyPlain c then
        assign_text_format Html (the (rc_html result)) data
      else if rc_rtf result \<noteq> None \<and> \<not> copyPlain c then
        assign_text_format Rtf (the (rc_rtf result)) data
      else if rc_text result \<noteq> None then
        (assign_text_format Text (the (rc_text result)) data)
          \<lparr>h_subtype := getClipboardTextSubtype c (t_value (the (rc_text result)))\<rparr>
      else if rc_image result \<noteq> None then
        (assign_image (the (rc_image result)) data)\<lparr>h_group := GImage\<rparr>
      else if copyPlain c \<and> (rc_html result \<noteq> None \<or> rc_rtf result \<noteq> None) then
        (let fallbackValue =
               first_truthy [h_search data, map_option t_value (rc_html result),
                             map_option t_value (rc_rtf result)]
         in data\<lparr>h_count := Some (length fallbackValue),
                 h_subtype := getClipboardTextSubtype c fallbackValue,
                 h_type := Some Text,
                 h_value := Some (Str fallbackValue)\<rparr>)
      else data)"

text \<open>
  \<open>isEmpty(result) || Object.values(result).every(isEmpty)\<close>: every entry the reader
  sets is an object with keys, which \<open>isEmpty\<close> does not take for empty, so the test
  holds exactly when no format was set.
\<close>

definition is_empty_result :: "ReadClipboard \<Rightarrow> bool" where
  "is_empty_result r \<longleftrightarrow>
     rc_text r = None \<and> rc_rtf r = None \<and> rc_html r = None \<and> rc_image r = None
     \<and> rc_files r = None"

section \<open>Dedup matcher and upsert\<close>

text \<open>
  \<open>sqlData\<close>: a deep clone of \<open>data\<close> whose \<open>value\<close> is replaced for an image (the
  awaited \<open>fullName\<close>, which may reject) and for files (\<open>JSON.stringify\<close>, which maps
  \<open>undefined\<close> to \<open>undefined\<close>).
\<close>

definition storage_projection :: "cfg \<Rightarrow> history \<Rightarrow> err + history" where
  "storage_projection c data =
     (case (if h_type data = Some Image then
              (case fullName c (h_value data) of
                 Inl e \<Rightarrow> Inl e
               | Inr p \<Rightarrow> Inr (data\<lparr>h_value := Some (Str p)\<rparr>))
            else Inr data) of
        Inl e \<Rightarrow> Inl e
      | Inr sqlData \<Rightarrow>
          Inr (if h_type data = Some Files then
                 sqlData\<lparr>h_value := map_option (\<lambda>v. Str (stringify c v)) (h_value data)\<rparr>
               else sqlData))"

text \<open>SQL \<open>column = parameter\<close>: never true on \<open>NULL\<close>.\<close>

definition sql_eq :: "'a option \<Rightarrow> 'a option \<Rightarrow> bool" where
  "sql_eq col v \<longleftrightarrow> col \<noteq> None \<and> col = v"

text \<open>
  The \<open>where\<close> clause built for \<open>selectHistory\<close>: \<open>type\<close> and \<open>value\<close> are taken from
  \<open>sqlData\<close>, the image's \<open>width\<close>, \<open>height\<close> and \<open>count\<close> from \<open>data\<close>.
\<close>

definition dedup_query :: "history \<Rightarrow> history \<Rightarrow> history \<Rightarrow> bool" where
  "dedup_query data sqlData row =
     (if h_type sqlData = Some Image then
        sql_eq (h_type row) (Some Image)
        \<and> (sql_eq (h_value row) (h_value sqlData)
           \<or> (sql_eq (h_width row) (h_width data)
              \<and> sql_eq (h_height row) (h_height data)
              \<and> sql_eq (h_count row) (h_count data)))
      else sql_eq (h_type row) (h_type sqlData) \<and> sql_eq (h_value row) (h_value sqlData))"

text \<open>
  The state a pass works on: the in-memory list and the active filter (\<open>state.list\<close>,
  \<open>state.group\<close>), the persistent store, and the trace of effects so far. The type of
  \<open>state.group\<close> is not among the sources; the code compares it with \<open>"all"\<close> and with
  \<open>data.group\<close>, so the filter is \<open>all\<close>, one of the three groups, or any other value.
\<close>

datatype gfilter = GroupAll | GroupOnly grp | GroupOther string

record world =
  w_list :: "history list"
  w_group :: gfilter
  w_store :: "history list"
  w_trace :: "effect list"

definition emit :: "effect \<Rightarrow> world \<Rightarrow> world" where
  "emit e w = w\<lparr>w_trace := w_trace w @ [e]\<rparr>"

definition emits :: "effect list \<Rightarrow> world \<Rightarrow> world" where
  "emits es w = w\<lparr>w_trace := w_trace w @ es\<rparr>"

text \<open>
  Modelled from the spec: the store operations of \<open>@/database/history\<close>, whose code
  is not among the sources. The spec gives them as \<open>select one record matching a
  predicate\<close>, \<open>insert record\<close> and \<open>update record fields by id\<close>, each atomic; the
  store is the list of its rows, \<open>selectHistory\<close> returns the matching rows in store
  order, and the caller takes the first. A store call that rejects is outside this
  model.
\<close>

definition selectHistory :: "(history \<Rightarrow> bool) \<Rightarrow> world \<Rightarrow> history list \<times> world" where
  "selectHistory q w = (filter q (w_store w), emit SelectHistory w)"

definition updateHistory :: "string \<Rightarrow> string \<Rightarrow> world \<Rightarrow> world" where
  "updateHistory i createTime w =
     emit (UpdateHistory i createTime)
       (w\<lparr>w_store := map (\<lambda>r. if h_id r = i then r\<lparr>h_createTime := createTime\<rparr> else r)
                          (w_store w)\<rparr>)"

definition insertHistory :: "history \<Rightarrow> world \<Rightarrow> world" where
  "insertHistory r w = emit (InsertHistory r) (w\<lparr>w_store := w_store w @ [r]\<rparr>)"

text \<open>
  \<open>remove(state.list, { id })\<close> deletes every entry whose \<open>id\<close> matches;
  \<open>state.list.unshift(x)\<close> puts \<open>x\<close> in front.
\<close>

definition list_remove :: "string \<Rightarrow> world \<Rightarrow> world" where
  "list_remove i w = emit (ListRemove i) (w\<lparr>w_list := filter (\<lambda>x. h_id x \<noteq> i) (w_list w)\<rparr>)"

definition list_unshift :: "history \<Rightarrow> world \<Rightarrow> world" where
  "list_unshift x w = emit (ListUnshift x) (w\<lparr>w_list := x # w_list w\<rparr>)"

text \<open>
  From the query to the end of \<open>processClipboard\<close>: \<open>[matched]\<close> is the first row
  returned; \<open>visible\<close> compares the filter with \<open>data.group\<close>.
\<close>

definition visible :: "world \<Rightarrow> history \<Rightarrow> bool" where
  "visible w data \<longleftrightarrow> w_group w = GroupAll \<or> w_group w = GroupOnly (h_group data)"

definition upsert :: "history \<Rightarrow> history \<Rightarrow> world \<Rightarrow> world" where
  "upsert data sqlData w =
     (case selectHistory (dedup_query data sqlData) w of
        (matched # rest, w1) \<Rightarrow>
          updateHistory (h_id matched) (h_createTime data)
            (if visible w1 data
             then list_unshift (data\<lparr>h_id := h_id matched\<rparr>) (list_remove (h_id matched) w1)
             else w1)
      | ([], w1) \<Rightarrow>
          insertHistory sqlData (if visible w1 data then list_unshift data w1 else w1))"

section \<open>The pipeline pass\<close>

text \<open>
  \<open>processClipboard\<close>: the first \<open>try\<close> around the read, with its error line and
  warning; then the second \<open>try\<close>, whose \<open>catch\<close> writes an error line and the other
  warning when \<open>fullName\<close> rejects. The pass returns early, without a log line, on a
  snapshot with no format, and with a warning line on a record without type and on an
  image of \<open>count = 0\<close>.
\<close>

definition processClipboard :: "cfg \<Rightarrow> (nat \<Rightarrow> native) \<Rightarrow> world \<Rightarrow> world" where
  "processClipboard c clip w =
     (case readClipboardWithRetry clip of
        (Inl e, l) \<Rightarrow>
          emit (MessageWarning ''clipboard.hints.clipboard_read_failed'')
            (emit (LogError (ReadFailedAfterRetries e)) (emits l w))
      | (Inr result, l) \<Rightarrow>
          (if is_empty_result result then emits l w
           else (let data = build_record c result in
             if h_type data = None then emit (LogWarn NoRecognizedType) (emits l w)
             else if h_type data = Some Image \<and> h_count data = Some 0
               then emit (LogWarn ZeroByteImage) (emits l w)
             else (case storage_projection c data of
                     Inl e \<Rightarrow>
                       emit (MessageWarning ''clipboard.hints.clipboard_process_failed'')
                         (emit (LogError (ProcessingFailed e)) (emits l w))
                   | Inr sqlData \<Rightarrow> upsert data sqlData (emits l w)))))"

section \<open>Change debouncer and serializer\<close>

definition DEBOUNCE_MS :: nat where
  "DEBOUNCE_MS = 300"

text \<open>
  The two variables of the listener's closure, \<open>debounceTimer\<close> (the time at which the
  pending timeout is due, \<open>None\<close> for \<open>null\<close>) and \<open>isProcessing\<close>, with four
  counters that only observe: calls of the \<open>beforeRead\<close> hook, calls of
  \<open>processClipboard\<close>, timer callbacks that returned at the lock, and passes started
  but not yet settled.
\<close>

record debouncer =
  debounceTimer :: "nat option"
  isProcessing :: bool
  beforeReads :: nat
  started :: nat
  skipped :: nat
  inFlight :: nat

definition idle :: debouncer where
  "idle = \<lparr>debounceTimer = None, isProcessing = False, beforeReads = 0, started = 0,
            skipped = 0, inFlight = 0\<rparr>"

text \<open>
  The listener of \<open>CLIPBOARD_CHANGED\<close>, run at time \<open>now\<close>: the hook first, then
  \<open>clearTimeout\<close> and \<open>setTimeout(..., DEBOUNCE_MS)\<close>, which leave one timer, due
  \<open>DEBOUNCE_MS\<close> from now.
\<close>

definition on_clipboard_changed :: "nat \<Rightarrow> debouncer \<Rightarrow> debouncer" where
  "on_clipboard_changed now d =
     d\<lparr>beforeReads := beforeReads d + 1, debounceTimer := Some (now + DEBOUNCE_MS)\<rparr>"

text \<open>
  The timeout's callback up to its first \<open>await\<close>: it clears \<open>debounceTimer\<close>,
  returns if \<open>isProcessing\<close>, and otherwise takes the lock and calls
  \<open>processClipboard\<close>. The \<open>finally\<close> releases the lock when that pass settles.
\<close>

definition timer_callback :: "debouncer \<Rightarrow> debouncer" where
  "timer_callback d =
     (let d1 = d\<lparr>debounceTimer := None\<rparr> in
      if isProcessing d1 then d1\<lparr>skipped := skipped d1 + 1\<rparr>
      else d1\<lparr>isProcessing := True, started := started d1 + 1, inFlight := inFlight d1 + 1\<rparr>)"

definition pass_settled :: "debouncer \<Rightarrow> debouncer" where
  "pass_settled d = d\<lparr>isProcessing := False, inFlight := inFlight d - 1\<rparr>"

text \<open>
  The event loop, over time-stamped events in milliseconds: a clipboard notification,
  or the settling of the pass in flight. A pending timer that is due at or before an
  event's time fires before the event is handled; \<open>run\<close> lets the clock reach
  \<open>horizon\<close> after the last event. \<open>Settled\<close> with no pass in flight does nothing.
  (Which of a timer and a notification runs first when both fall on the same
  millisecond is left to the runtime; the streams of the theorems below have no such
  tie.)
\<close>

datatype event = Changed nat | Settled nat

definition fire_due :: "nat \<Rightarrow> debouncer \<Rightarrow> debouncer" where
  "fire_due now d =
     (case debounceTimer d of
        Some due \<Rightarrow> if due \<le> now then timer_callback d else d
      | None \<Rightarrow> d)"

fun step :: "debouncer \<Rightarrow> event \<Rightarrow> debouncer" where
  "step d (Changed t) = on_clipboard_changed t (fire_due t d)"
| "step d (Settled t) =
     (let d1 = fire_due t d in if inFlight d1 > 0 then pass_settled d1 else d1)"

definition run :: "event list \<Rightarrow> nat \<Rightarrow> debouncer \<Rightarrow> debouncer" where
  "run evs horizon d = fire_due horizon (foldl step d evs)"

section \<open>Observing a pass\<close>

text \<open>
  The user-visible warnings among the effects, the part of the trace that one pass
  appends, and the warning shown when the read fails.
\<close>

fun is_message :: "effect \<Rightarrow> bool" where
  "is_message (MessageWarning k) = True"
| "is_message e = False"

definition pass_trace :: "cfg \<Rightarrow> (nat \<Rightarrow> native) \<Rightarrow> world \<Rightarrow> effect list" where
  "pass_trace c clip w = drop (length (w_trace w)) (w_trace (processClipboard c clip w))"

definition read_failed :: effect where
  "read_failed = MessageWarning ''clipboard.hints.clipboard_read_failed''"

text \<open>The calls on the store and on the list among the effects.\<close>

fun touches_state :: "effect \<Rightarrow> bool" where
  "touches_state SelectHistory = True"
| "touches_state (UpdateHistory i t) = True"
| "touches_state (InsertHistory r) = True"
| "touches_state (ListRemove i) = True"
| "touches_state (ListUnshift r) = True"
| "touches_state e = False"

text \<open>
  The record and its storage-ready projection with which a pass reaches the query, if
  it does, and the log lines of its read.
\<close>

definition candidate ::
  "cfg \<Rightarrow> (nat \<Rightarrow> native) \<Rightarrow> (history \<times> history \<times> effect list) option" where
  "candidate c clip =
     (case readClipboardWithRetry clip of
        (Inl e, l) \<Rightarrow> None
      | (Inr result, l) \<Rightarrow>
          (if is_empty_result result then None
           else (let data = build_record c result in
             if h_type data = None then None
             else if h_type data = Some Image \<and> h_count data = Some 0 then None
             else (case storage_projection c data of
                     Inl e \<Rightarrow> None
                   | Inr sqlData \<Rightarrow> Some (data, sqlData, l)))))"

text \<open>The writes on the store, and the operations on the list.\<close>

fun is_store_write :: "effect \<Rightarrow> bool" where
  "is_store_write (UpdateHistory i t) = True"
| "is_store_write (InsertHistory r) = True"
| "is_store_write e = False"

fun is_list_op :: "effect \<Rightarrow> bool" where
  "is_list_op (ListRemove i) = True"
| "is_list_op (ListUnshift r) = True"
| "is_list_op e = False"

text \<open>The store after \<open>updateHistory(i, { createTime: t })\<close>.\<close>

definition refresh :: "string \<Rightarrow> string \<Rightarrow> history list \<Rightarrow> history list" where
  "refresh i t store = map (\<lambda>r. if h_id r = i then r\<lparr>h_createTime := t\<rparr> else r) store"

text \<open>Some effect satisfying \<open>P\<close> stands in the trace before some effect satisfying \<open>Q\<close>.\<close>

fun occurs_before :: "(effect \<Rightarrow> bool) \<Rightarrow> (effect \<Rightarrow> bool) \<Rightarrow> effect list \<Rightarrow> bool" where
  "occurs_before P Q [] = False"
| "occurs_before P Q (e # es) = ((P e \<and> list_ex Q es) \<or> occurs_before P Q es)"

text \<open>
  Shapes of notification streams. \<open>within_window t ts\<close>: each notification of \<open>ts\<close>
  arrives less than \<open>DEBOUNCE_MS\<close> after the one before it, the first after \<open>t\<close>.
  \<open>spaced_from lc evs\<close>: each notification of \<open>evs\<close> arrives more than \<open>DEBOUNCE_MS\<close>
  after the one before it (\<open>lc\<close> is the time of the last one so far, if any);
  \<open>last_change\<close> is the time of the last notification. \<open>events_of ps\<close> is the stream in
  which the notification at \<open>t\<close> is followed by the settling at \<open>s\<close> of the pass it
  starts, for each \<open>(t, s)\<close> of \<open>ps\<close>, and \<open>prompt now ps\<close> says that each pass settles
  after its timer fired and before the next notification.
\<close>

fun within_window :: "nat \<Rightarrow> nat list \<Rightarrow> bool" where
  "within_window t [] = True"
| "within_window t (u # us) = (u < t + DEBOUNCE_MS \<and> within_window u us)"

fun is_changed :: "event \<Rightarrow> bool" where
  "is_changed (Changed t) = True"
| "is_changed (Settled t) = False"

fun spaced_from :: "nat option \<Rightarrow> event list \<Rightarrow> bool" where
  "spaced_from lc [] = True"
| "spaced_from lc (Settled t # es) = spaced_from lc es"
| "spaced_from lc (Changed t # es) =
     ((case lc of None \<Rightarrow> True | Some u \<Rightarrow> u + DEBOUNCE_MS < t) \<and> spaced_from (Some t) es)"

fun last_change :: "nat option \<Rightarrow> event list \<Rightarrow> nat option" where
  "last_change lc [] = lc"
| "last_change lc (Settled t # es) = last_change lc es"
| "last_change lc (Changed t # es) = last_change (Some t) es"

fun events_of :: "(nat \<times> nat) list \<Rightarrow> event list" where
  "events_of [] = []"
| "events_of ((t, s) # ps) = Changed t # Settled s # events_of ps"

fun prompt :: "nat \<Rightarrow> (nat \<times> nat) list \<Rightarrow> bool" where
  "prompt now [] = True"
| "prompt now ((t, s) # ps) = (now \<le> t \<and> t + DEBOUNCE_MS < s \<and> prompt s ps)"

text \<open>
  The number of timer callbacks so far, whether one is pending, and two invariants of
  the event loop: a pending timer is the one set by the last notification, and the
  counter of passes in flight follows \<open>isProcessing\<close>.
\<close>

definition firings :: "debouncer \<Rightarrow> nat" where
  "firings d = started d + skipped d"

definition pending :: "debouncer \<Rightarrow> nat" where
  "pending d = (if debounceTimer d = None then 0 else 1)"

definition timer_follows :: "debouncer \<Rightarrow> nat option \<Rightarrow> bool" where
  "timer_follows d lc \<longleftrightarrow>
     debounceTimer d = None \<or> (\<exists>u. lc = Some u \<and> debounceTimer d = Some (u + DEBOUNCE_MS))"

definition lock_inv :: "debouncer \<Rightarrow> bool" where
  "lock_inv d \<longleftrightarrow> inFlight d = (if isProcessing d then 1 else 0)"

section \<open>Example inputs\<close>

text \<open>A clipboard that holds nothing, and variations of it used below.\<close>

definition quiet :: native where
  "quiet =
     \<lparr>hasText = Inr False, readText = Inl (Err ''absent''),
      hasRTF = Inr False, readRTF = Inl (Err ''absent''),
      hasHTML = Inr False, readHTML = Inl (Err ''absent''),
      hasImage = Inr False, readImage = Inl (Err ''absent''),
      has_clipboard_image_win = Inr False, read_clipboard_image_win = Inr None,
      hasFiles = Inr False, readFiles = Inl (Err ''absent'')\<rparr>"

definition locked :: err where
  "locked = Err ''clipboard is locked''"

definition text_only :: ReadClipboard where
  "text_only = empty_result\<lparr>rc_text := Some \<lparr>t_count = 2, t_value = ''hi''\<rparr>\<rparr>"

definition html_only :: ReadClipboard where
  "html_only = empty_result\<lparr>rc_html := Some \<lparr>t_count = 4, t_value = ''<b/>''\<rparr>\<rparr>"

definition text_fails :: native where
  "text_fails = quiet\<lparr>hasText := Inr True, readText := Inl locked\<rparr>"

definition rtf_fails_after_text :: native where
  "rtf_fails_after_text =
     quiet\<lparr>hasText := Inr True, readText := Inr ''hi'', hasRTF := Inr True, readRTF := Inl locked\<rparr>"

definition html_fails_alone :: native where
  "html_fails_alone = quiet\<lparr>hasHTML := Inl locked\<rparr>"

definition image_fails_after_html :: native where
  "image_fails_after_html =
     quiet\<lparr>hasHTML := Inr True, readHTML := Inr ''<b/>'', hasImage := Inr True,
           readImage := Inl locked\<rparr>"

definition files_fail_alone :: native where
  "files_fail_alone = quiet\<lparr>hasFiles := Inr True, readFiles := Inl locked\<rparr>"


text \<open>
  A clipboard that holds the text \<open>hi\<close>; a clipboard whose text read fails until
  attempt \<open>j\<close>; an environment in which no text has a subtype, \<open>fullName\<close> prefixes
  the path and \<open>copyPlain\<close> is off; and a state with nothing stored or listed.
\<close>

definition holds_hi :: native where
  "holds_hi = quiet\<lparr>hasText := Inr True, readText := Inr ''hi''\<rparr>"

definition succeeds_at :: "nat \<Rightarrow> nat \<Rightarrow> native" where
  "succeeds_at j k = (if k < j then text_fails else holds_hi)"

definition example_cfg :: cfg where
  "example_cfg =
     \<lparr>copyPlain = False, formatDate = ''2025-06-01 12:00:00'', nanoid = ''new-id'',
      isURL = (\<lambda>s. False), isEmail = (\<lambda>s. False), isColor = (\<lambda>s. False),
      fs_exists = (\<lambda>s. Inr False),
      fullName = (\<lambda>v. case v of Some (Str p) \<Rightarrow> Inr (''store/'' @ p)
                          | _ \<Rightarrow> Inl (Err ''not a path'')),
      stringify = (\<lambda>v. case v of Paths ps \<Rightarrow> ''['' @ join '','' ps @ '']'' | Str s \<Rightarrow> s)\<rparr>"

definition empty_world :: world where
  "empty_world = \<lparr>w_list = [], w_group = GroupAll, w_store = [], w_trace = []\<rparr>"

text \<open>The same environment with \<open>copyPlain\<close> on, and snapshots for the branches.\<close>

definition plain_cfg :: cfg where
  "plain_cfg = example_cfg\<lparr>copyPlain := True\<rparr>"

definition html_and_text :: ReadClipboard where
  "html_and_text =
     empty_result\<lparr>rc_text := Some \<lparr>t_count = 2, t_value = ''hi''\<rparr>,
                  rc_html := Some \<lparr>t_count = 2, t_value = ''<b>hi</b>''\<rparr>\<rparr>"

definition rtf_and_text :: ReadClipboard where
  "rtf_and_text =
     empty_result\<lparr>rc_text := Some \<lparr>t_count = 2, t_value = ''hi''\<rparr>,
                  rc_rtf := Some \<lparr>t_count = 2, t_value = ''{rtf hi}''\<rparr>\<rparr>"

definition files_and_text :: ReadClipboard where
  "files_and_text =
     empty_result\<lparr>rc_text := Some \<lparr>t_count = 3, t_value = ''a b''\<rparr>,
                  rc_files := Some \<lparr>f_count = 10, f_value = [''a'', ''b'']\<rparr>\<rparr>"

definition image_only :: ReadClipboard where
  "image_only =
     empty_result\<lparr>rc_image := Some \<lparr>i_count = 2048, i_value = ''tmp/a.png'', i_width = 100,
                                    i_height = 50\<rparr>\<rparr>"

text \<open>A clipboard whose image has size 0, and the snapshot read from it.\<close>

definition zero_image :: native where
  "zero_image =
     quiet\<lparr>hasImage := Inr True,
           readImage := Inr \<lparr>ri_path = ''tmp/z.png'', ri_size = 0, ri_width = 100, ri_height = 50\<rparr>\<rparr>"


definition zero_image_snapshot :: ReadClipboard where
  "zero_image_snapshot =
     empty_result\<lparr>rc_image := Some \<lparr>i_count = 0, i_value = ''tmp/z.png'', i_width = 100,
                                    i_height = 50\<rparr>\<rparr>"

text \<open>
  A clipboard that holds a 100 x 50 image of 2048 bytes, the records built from it and
  from \<open>hi\<close>, and a history that holds the same image under another path, a wider
  image, and \<open>hi\<close> as a favourite.
\<close>

definition image_native :: native where
  "image_native =
     quiet\<lparr>hasImage := Inr True,
           readImage := Inr \<lparr>ri_path = ''tmp/a.png'', ri_size = 2048, ri_width = 100,
                             ri_height = 50\<rparr>\<rparr>"

definition image_capture :: history where
  "image_capture = build_record example_cfg image_only"

definition image_row :: history where
  "image_row = image_capture\<lparr>h_value := Some (Str ''store/tmp/a.png'')\<rparr>"

definition hi_capture :: history where
  "hi_capture = build_record example_cfg text_only"

definition stored_image :: history where
  "stored_image =
     \<lparr>h_createTime = ''2025-01-01 08:00:00'', h_favorite = False, h_group = GImage,
      h_id = ''img-1'', h_search = None, h_type = Some Image,
      h_value = Some (Str ''store/old.png''), h_count = Some 2048, h_width = Some 100,
      h_height = Some 50, h_subtype = None\<rparr>"

definition wider_image :: history where
  "wider_image =
     stored_image\<lparr>h_id := ''img-2'', h_value := Some (Str ''store/wide.png''),
                  h_width := Some 200\<rparr>"

definition stored_hi :: history where
  "stored_hi =
     \<lparr>h_createTime = ''2025-01-01 09:00:00'', h_favorite = True, h_group = GText,
      h_id = ''txt-1'', h_search = Some ''hi'', h_type = Some Text,
      h_value = Some (Str ''hi''), h_count = Some 2, h_width = None, h_height = None,
      h_subtype = None\<rparr>"

definition history_world :: world where
  "history_world =
     \<lparr>w_list = [stored_hi, wider_image, stored_image], w_group = GroupAll,
      w_store = [stored_image, wider_image, stored_hi], w_trace = []\<rparr>"

text \<open>
  The same history with the filter on images, a clipboard with a text that is not
  stored yet, and the stored \<open>hi\<close> after its \<open>createTime\<close> is refreshed.
\<close>

definition images_only_world :: world where
  "images_only_world = history_world\<lparr>w_group := GroupOnly GImage\<rparr>"

definition fresh_native :: native where
  "fresh_native = quiet\<lparr>hasText := Inr True, readText := Inr ''new text''\<rparr>"

definition fresh_capture :: history where
  "fresh_capture =
     \<lparr>h_createTime = ''2025-06-01 12:00:00'', h_favorite = False, h_group = GText,
      h_id = ''new-id'', h_search = Some ''new text'', h_type = Some Text,
      h_value = Some (Str ''new text''), h_count = Some 8, h_width = None, h_height = None,
      h_subtype = None\<rparr>"

definition refreshed_hi :: history where
  "refreshed_hi = stored_hi\<lparr>h_createTime := ''2025-06-01 12:00:00''\<rparr>"

text \<open>
  A clipboard that holds two files, the record built from it, its storage-ready
  projection, and a history that holds the same files, with the filter on files.
\<close>

definition files_native :: native where
  "files_native =
     quiet\<lparr>hasFiles := Inr True,
           readFiles := Inr \<lparr>rf_paths = [''a.txt'', ''b.txt''], rf_size = 10\<rparr>\<rparr>"

definition files_capture :: history where
  "files_capture =
     \<lparr>h_createTime = ''2025-06-01 12:00:00'', h_favorite = False, h_group = GFiles,
      h_id = ''new-id'', h_search = Some ''a.txt b.txt'', h_type = Some Files,
      h_value = Some (Paths [''a.txt'', ''b.txt'']), h_count = Some 10, h_width = None,
      h_height = None, h_subtype = None\<rparr>"

definition files_row :: history where
  "files_row = files_capture\<lparr>h_value := Some (Str ''[a.txt,b.txt]'')\<rparr>"

definition files_world :: world where
  "files_world =
     \<lparr>w_list = [], w_group = GroupOnly GFiles,
      w_store = [files_row\<lparr>h_id := ''files-1'', h_createTime := ''2025-01-01 10:00:00''\<rparr>],
      w_trace = []\<rparr>"

section \<open>The reader: escalation and retry\<close>

lemma fst_and_then:
  "fst (and_then x f) = (case fst x of Inl e \<Rightarrow> Inl e | Inr a \<Rightarrow> fst (f a))"
  by (cases x; cases "fst x") (auto split: prod.splits)

lemma text_block_cases:
  "fst (read_text_block n k r) =
     (case probe_read (hasText n) (readText n) of
        Inl e \<Rightarrow> Inl e
      | Inr None \<Rightarrow> Inr r
      | Inr (Some t) \<Rightarrow> Inr (r\<lparr>rc_text := Some \<lparr>t_count = length t, t_value = t\<rparr>\<rparr>))"
  by (simp add: read_text_block_def split: sum.splits option.splits)

lemma rtf_block_keeps_text:
  "fst (read_rtf_block n k r) = Inr r' \<Longrightarrow> rc_text r' = rc_text r"
  by (auto simp: read_rtf_block_def split: sum.splits option.splits if_splits)

lemma rtf_block_total:
  "rc_text r \<noteq> None \<Longrightarrow> \<exists>r'. fst (read_rtf_block n k r) = Inr r'"
  by (auto simp: read_rtf_block_def split: sum.splits option.splits if_splits)

lemma html_block_keeps:
  "fst (read_html_block n k r) = Inr r' \<Longrightarrow> rc_text r' = rc_text r \<and> rc_rtf r' = rc_rtf r"
  by (auto simp: read_html_block_def split: sum.splits option.splits if_splits)

lemma html_block_total:
  "rc_text r \<noteq> None \<Longrightarrow> \<exists>r'. fst (read_html_block n k r) = Inr r'"
  by (auto simp: read_html_block_def split: sum.splits option.splits if_splits)

lemma image_block_keeps:
  "fst (read_image_block n k r) = Inr r' \<Longrightarrow>
     rc_text r' = rc_text r \<and> rc_rtf r' = rc_rtf r \<and> rc_html r' = rc_html r"
  by (auto simp: read_image_block_def split: sum.splits option.splits if_splits)

lemma image_block_total:
  "rc_text r \<noteq> None \<or> rc_html r \<noteq> None \<or> rc_rtf r \<noteq> None \<Longrightarrow>
     \<exists>r'. fst (read_image_block n k r) = Inr r'"
  by (auto simp: read_image_block_def split: sum.splits option.splits if_splits)

lemma files_block_total:
  "rc_text r \<noteq> None \<or> rc_html r \<noteq> None \<or> rc_rtf r \<noteq> None \<or> rc_image r \<noteq> None \<Longrightarrow>
     \<exists>r'. fst (read_files_block n k r) = Inr r'"
  by (auto simp: read_files_block_def split: sum.splits option.splits if_splits)

lemma abort_propagates:
  "fst (through_text n k) = Inl e \<Longrightarrow> fst (through_rtf n k) = Inl e"
  "fst (through_rtf n k) = Inl e \<Longrightarrow> fst (through_html n k) = Inl e"
  "fst (through_html n k) = Inl e \<Longrightarrow> fst (through_image n k) = Inl e"
  "fst (through_image n k) = Inl e \<Longrightarrow> fst (read_attempt n k) = Inl e"
  by (simp_all add: read_attempt_def through_image_def through_html_def through_rtf_def
      fst_and_then)

lemma block_steps:
  "fst (through_text n k) = Inr r \<Longrightarrow> fst (through_rtf n k) = fst (read_rtf_block n k r)"
  "fst (through_rtf n k) = Inr r \<Longrightarrow> fst (through_html n k) = fst (read_html_block n k r)"
  "fst (through_html n k) = Inr r \<Longrightarrow> fst (through_image n k) = fst (read_image_block n k r)"
  "fst (through_image n k) = Inr r \<Longrightarrow> fst (read_attempt n k) = fst (read_files_block n k r)"
  by (simp_all add: read_attempt_def through_image_def through_html_def through_rtf_def
      fst_and_then)

lemma succeeds_from_image:
  assumes "fst (through_image n k) = Inr r"
    and "rc_text r \<noteq> None \<or> rc_html r \<noteq> None \<or> rc_rtf r \<noteq> None \<or> rc_image r \<noteq> None"
  shows "\<not> isl (fst (read_attempt n k))"
  using files_block_total [OF assms(2), of n k] block_steps(4) [OF assms(1)] by auto

lemma succeeds_from_html:
  assumes "fst (through_html n k) = Inr r"
    and "rc_text r \<noteq> None \<or> rc_html r \<noteq> None \<or> rc_rtf r \<noteq> None"
  shows "\<not> isl (fst (read_attempt n k))"
proof -
  obtain r' where r': "fst (read_image_block n k r) = Inr r'"
    using image_block_total [OF assms(2)] by blast
  have "rc_text r' \<noteq> None \<or> rc_html r' \<noteq> None \<or> rc_rtf r' \<noteq> None \<or> rc_image r' \<noteq> None"
    using image_block_keeps [OF r'] assms(2) by auto
  moreover have "fst (through_image n k) = Inr r'"
    using block_steps(3) [OF assms(1)] r' by simp
  ultimately show ?thesis by (rule succeeds_from_image [rotated])
qed

lemma succeeds_from_rtf:
  assumes "fst (through_rtf n k) = Inr r" and "rc_text r \<noteq> None"
  shows "\<not> isl (fst (read_attempt n k))"
proof -
  obtain r' where r': "fst (read_html_block n k r) = Inr r'"
    using html_block_total [OF assms(2)] by blast
  have "rc_text r' \<noteq> None"
    using html_block_keeps [OF r'] assms(2) by auto
  moreover have "fst (through_html n k) = Inr r'"
    using block_steps(2) [OF assms(1)] r' by simp
  ultimately show ?thesis using succeeds_from_html by blast
qed

lemma succeeds_from_text:
  assumes "fst (through_text n k) = Inr r" and "rc_text r \<noteq> None"
  shows "\<not> isl (fst (read_attempt n k))"
proof -
  obtain r' where r': "fst (read_rtf_block n k r) = Inr r'"
    using rtf_block_total [OF assms(2)] by blast
  have "rc_text r' \<noteq> None"
    using rtf_block_keeps_text [OF r'] assms(2) by auto
  moreover have "fst (through_rtf n k) = Inr r'"
    using block_steps(1) [OF assms(1)] r' by simp
  ultimately show ?thesis using succeeds_from_rtf by blast
qed

lemma failed_block:
  "probe_read (hasRTF n) (readRTF n) = Inl e \<Longrightarrow>
     fst (read_rtf_block n k r) = (if rc_text r = None then Inl e else Inr r)"
  "probe_read (hasHTML n) (readHTML n) = Inl e \<Longrightarrow>
     fst (read_html_block n k r) = (if rc_text r = None then Inl e else Inr r)"
  "image_probe n = Inl e \<Longrightarrow>
     fst (read_image_block n k r) =
       (if rc_text r = None \<and> rc_html r = None \<and> rc_rtf r = None then Inl e else Inr r)"
  "probe_read (hasFiles n) (readFiles n) = Inl e \<Longrightarrow>
     fst (read_files_block n k r) =
       (if rc_text r = None \<and> rc_html r = None \<and> rc_rtf r = None \<and> rc_image r = None
        then Inl e else Inr r)"
  by (simp_all add: read_rtf_block_def read_html_block_def read_image_block_def
      read_files_block_def)

text \<open>
  C3. In one read attempt: a failure of the text probe or read throws out of the
  attempt. A failure in the RTF or the HTML block throws exactly when the snapshot so
  far holds no text; in the image block (the probe \<open>image_probe\<close>) exactly when it
  holds none of text, HTML and RTF; in the files block exactly when it holds none of
  text, HTML, RTF and image. When the failure is tolerated, the block returns the
  snapshot it was given, and the attempt as a whole returns a snapshot.
\<close>

theorem escalation_rule:
  "(probe_read (hasText n) (readText n) = Inl e \<longrightarrow> fst (read_attempt n k) = Inl e)
   \<and> (fst (through_text n k) = Inr r1 \<and> probe_read (hasRTF n) (readRTF n) = Inl e \<longrightarrow>
        (isl (fst (read_attempt n k)) \<longleftrightarrow> rc_text r1 = None)
        \<and> (rc_text r1 = None \<longrightarrow> fst (read_attempt n k) = Inl e)
        \<and> (rc_text r1 \<noteq> None \<longrightarrow> fst (through_rtf n k) = Inr r1))
   \<and> (fst (through_rtf n k) = Inr r2 \<and> probe_read (hasHTML n) (readHTML n) = Inl e \<longrightarrow>
        (isl (fst (read_attempt n k)) \<longleftrightarrow> rc_text r2 = None)
        \<and> (rc_text r2 = None \<longrightarrow> fst (read_attempt n k) = Inl e)
        \<and> (rc_text r2 \<noteq> None \<longrightarrow> fst (through_html n k) = Inr r2))
   \<and> (fst (through_html n k) = Inr r3 \<and> image_probe n = Inl e \<longrightarrow>
        (isl (fst (read_attempt n k)) \<longleftrightarrow>
           rc_text r3 = None \<and> rc_html r3 = None \<and> rc_rtf r3 = None)
        \<and> (rc_text r3 = None \<and> rc_html r3 = None \<and> rc_rtf r3 = None \<longrightarrow>
             fst (read_attempt n k) = Inl e)
        \<and> (\<not> (rc_text r3 = None \<and> rc_html r3 = None \<and> rc_rtf r3 = None) \<longrightarrow>
             fst (through_image n k) = Inr r3))
   \<and> (fst (through_image n k) = Inr r4 \<and> probe_read (hasFiles n) (readFiles n) = Inl e \<longrightarrow>
        (isl (fst (read_attempt n k)) \<longleftrightarrow>
           rc_text r4 = None \<and> rc_html r4 = None \<and> rc_rtf r4 = None \<and> rc_image r4 = None)
        \<and> (rc_text r4 = None \<and> rc_html r4 = None \<and> rc_rtf r4 = None \<and> rc_image r4 = None \<longrightarrow>
             fst (read_attempt n k) = Inl e)
        \<and> (\<not> (rc_text r4 = None \<and> rc_html r4 = None \<and> rc_rtf r4 = None \<and> rc_image r4 = None) \<longrightarrow>
             fst (read_attempt n k) = Inr r4))"
  (is "?T \<and> ?R \<and> ?H \<and> ?I \<and> ?F")
proof -
  have T: ?T
    by (simp add: read_attempt_def through_image_def through_html_def through_rtf_def
        through_text_def fst_and_then text_block_cases)
  have R: ?R
  proof (intro impI, elim conjE)
    assume a: "fst (through_text n k) = Inr r1" "probe_read (hasRTF n) (readRTF n) = Inl e"
    have step: "fst (through_rtf n k) = (if rc_text r1 = None then Inl e else Inr r1)"
      using block_steps(1) [OF a(1)] failed_block(1) [OF a(2)] by simp
    show "(isl (fst (read_attempt n k)) \<longleftrightarrow> rc_text r1 = None)
        \<and> (rc_text r1 = None \<longrightarrow> fst (read_attempt n k) = Inl e)
        \<and> (rc_text r1 \<noteq> None \<longrightarrow> fst (through_rtf n k) = Inr r1)"
    proof (cases "rc_text r1 = None")
      case True
      then have "fst (read_attempt n k) = Inl e"
        using step abort_propagates(2-4) by simp
      with True show ?thesis by simp
    next
      case False
      with succeeds_from_text [OF a(1)] step show ?thesis by auto
    qed
  qed
  have H: ?H
  proof (intro impI, elim conjE)
    assume a: "fst (through_rtf n k) = Inr r2" "probe_read (hasHTML n) (readHTML n) = Inl e"
    have step: "fst (through_html n k) = (if rc_text r2 = None then Inl e else Inr r2)"
      using block_steps(2) [OF a(1)] failed_block(2) [OF a(2)] by simp
    show "(isl (fst (read_attempt n k)) \<longleftrightarrow> rc_text r2 = None)
        \<and> (rc_text r2 = None \<longrightarrow> fst (read_attempt n k) = Inl e)
        \<and> (rc_text r2 \<noteq> None \<longrightarrow> fst (through_html n k) = Inr r2)"
    proof (cases "rc_text r2 = None")
      case True
      then have "fst (read_attempt n k) = Inl e"
        using step abort_propagates(3-4) by simp
      with True show ?thesis by simp
    next
      case False
      with succeeds_from_rtf [OF a(1)] step show ?thesis by auto
    qed
  qed
  have I: ?I
  proof (intro impI, elim conjE)
    assume a: "fst (through_html n k) = Inr r3" "image_probe n = Inl e"
    let ?none = "rc_text r3 = None \<and> rc_html r3 = None \<and> rc_rtf r3 = None"
    have step: "fst (through_image n k) = (if ?none then Inl e else Inr r3)"
      using block_steps(3) [OF a(1)] failed_block(3) [OF a(2)] by simp
    show "(isl (fst (read_attempt n k)) \<longleftrightarrow> ?none)
        \<and> (?none \<longrightarrow> fst (read_attempt n k) = Inl e)
        \<and> (\<not> ?none \<longrightarrow> fst (through_image n k) = Inr r3)"
    proof (cases ?none)
      case True
      then have "fst (read_attempt n k) = Inl e"
        using step abort_propagates(4) by simp
      with True show ?thesis by simp
    next
      case False
      then have "\<not> isl (fst (read_attempt n k))"
        using succeeds_from_html [OF a(1)] by blast
      with False step show ?thesis by auto
    qed
  qed
  have F: ?F
  proof (intro impI, elim conjE)
    assume a: "fst (through_image n k) = Inr r4" "probe_read (hasFiles n) (readFiles n) = Inl e"
    let ?none = "rc_text r4 = None \<and> rc_html r4 = None \<and> rc_rtf r4 = None \<and> rc_image r4 = None"
    have step: "fst (read_attempt n k) = (if ?none then Inl e else Inr r4)"
      using block_steps(4) [OF a(1)] failed_block(4) [OF a(2)] by simp
    show "(isl (fst (read_attempt n k)) \<longleftrightarrow> ?none)
        \<and> (?none \<longrightarrow> fst (read_attempt n k) = Inl e)
        \<and> (\<not> ?none \<longrightarrow> fst (read_attempt n k) = Inr r4)"
      using step by (cases ?none) auto
  qed
  from T R H I F show ?thesis by blast
qed

lemmas reader_defs =
  probe_read_def read_text_block_def read_rtf_block_def read_html_block_def image_probe_def
  read_image_block_def read_files_block_def through_text_def through_rtf_def through_html_def
  through_image_def read_attempt_def hasClipboardImageWin_def readClipboardImageWin_def
  empty_result_def

theorem escalation_rule_witness:
  "fst (read_attempt text_fails 1) = Inl locked
   \<and> \<not> isl (fst (read_attempt rtf_fails_after_text 1))
   \<and> fst (through_rtf rtf_fails_after_text 1) = Inr text_only
   \<and> fst (read_attempt html_fails_alone 1) = Inl locked
   \<and> \<not> isl (fst (read_attempt image_fails_after_html 1))
   \<and> fst (through_image image_fails_after_html 1) = Inr html_only
   \<and> fst (read_attempt files_fail_alone 1) = Inl locked"
proof -
  have t: "probe_read (hasText text_fails) (readText text_fails) = Inl locked"
    by (simp add: text_fails_def quiet_def probe_read_def)
  have r: "fst (through_text rtf_fails_after_text 1) = Inr text_only"
    "probe_read (hasRTF rtf_fails_after_text) (readRTF rtf_fails_after_text) = Inl locked"
    "rc_text text_only \<noteq> None"
    by (simp_all add: rtf_fails_after_text_def quiet_def text_only_def reader_defs)
  have h: "fst (through_rtf html_fails_alone 1) = Inr empty_result"
    "probe_read (hasHTML html_fails_alone) (readHTML html_fails_alone) = Inl locked"
    "rc_text empty_result = None"
    by (simp_all add: html_fails_alone_def quiet_def reader_defs)
  have i: "fst (through_html image_fails_after_html 1) = Inr html_only"
    "image_probe image_fails_after_html = Inl locked"
    "rc_html html_only \<noteq> None"
    by (simp_all add: image_fails_after_html_def quiet_def html_only_def reader_defs)
  have f: "fst (through_image files_fail_alone 1) = Inr empty_result"
    "probe_read (hasFiles files_fail_alone) (readFiles files_fail_alone) = Inl locked"
    "rc_text empty_result = None \<and> rc_html empty_result = None \<and> rc_rtf empty_result = None
       \<and> rc_image empty_result = None"
    by (simp_all add: files_fail_alone_def quiet_def reader_defs)
  have c1: "fst (read_attempt text_fails 1) = Inl locked"
    using escalation_rule [of text_fails locked 1 empty_result empty_result empty_result
        empty_result] t by simp
  have c2: "\<not> isl (fst (read_attempt rtf_fails_after_text 1))
      \<and> fst (through_rtf rtf_fails_after_text 1) = Inr text_only"
    using escalation_rule [of rtf_fails_after_text locked 1 text_only empty_result empty_result
        empty_result] r by simp
  have c3: "fst (read_attempt html_fails_alone 1) = Inl locked"
    using escalation_rule [of html_fails_alone locked 1 empty_result empty_result empty_result
        empty_result] h by simp
  have c4: "\<not> isl (fst (read_attempt image_fails_after_html 1))
      \<and> fst (through_image image_fails_after_html 1) = Inr html_only"
    using escalation_rule [of image_fails_after_html locked 1 empty_result empty_result html_only
        empty_result] i by simp
  have c5: "fst (read_attempt files_fail_alone 1) = Inl locked"
    using escalation_rule [of files_fail_alone locked 1 empty_result empty_result empty_result
        empty_result] f by simp
  from c1 c2 c3 c4 c5 show ?thesis by simp
qed

lemma retry_loop_past:
  "retry_loop clip 4 e = (Inl e, [LogError (AllAttemptsFailed 3 e)])"
  by (subst retry_loop.simps) (simp add: RETRY_COUNT_def)

lemma retry_loop_third:
  "retry_loop clip 3 e0 =
     (case read_attempt (clip 3) 3 of
        (Inr r, l3) \<Rightarrow> (Inr r, l3)
      | (Inl e3, l3) \<Rightarrow> (Inl e3, l3 @ [LogError (AllAttemptsFailed 3 e3)]))"
  by (subst retry_loop.simps)
     (simp add: RETRY_COUNT_def retry_loop_past split: prod.splits sum.splits)

lemma retry_loop_second:
  "retry_loop clip 2 e0 =
     (case read_attempt (clip 2) 2 of
        (Inr r, l2) \<Rightarrow> (Inr r, l2)
      | (Inl e2, l2) \<Rightarrow>
          (case retry_loop clip 3 e2 of (r, l') \<Rightarrow> (r, l2 @ [Delay 200] @ l')))"
  by (subst retry_loop.simps)
     (simp add: RETRY_COUNT_def RETRY_DELAY_MS_def split: prod.splits sum.splits)

lemma retry_loop_first:
  "retry_loop clip 1 e0 =
     (case read_attempt (clip 1) 1 of
        (Inr r, l1) \<Rightarrow> (Inr r, l1)
      | (Inl e1, l1) \<Rightarrow>
          (case retry_loop clip 2 e1 of (r, l') \<Rightarrow> (r, l1 @ [Delay 200] @ l')))"
  by (subst retry_loop.simps)
     (simp add: RETRY_COUNT_def RETRY_DELAY_MS_def del: One_nat_def
       split: prod.splits sum.splits)

lemma retry_unroll:
  "readClipboardWithRetry clip =
     (case read_attempt (clip 1) 1 of
        (Inr r, l1) \<Rightarrow> (Inr r, l1)
      | (Inl e1, l1) \<Rightarrow>
          (case read_attempt (clip 2) 2 of
             (Inr r, l2) \<Rightarrow> (Inr r, l1 @ [Delay 200] @ l2)
           | (Inl e2, l2) \<Rightarrow>
               (case read_attempt (clip 3) 3 of
                  (Inr r, l3) \<Rightarrow> (Inr r, l1 @ [Delay 200] @ l2 @ [Delay 200] @ l3)
                | (Inl e3, l3) \<Rightarrow>
                    (Inl e3, l1 @ [Delay 200] @ l2 @ [Delay 200] @ l3
                             @ [LogError (AllAttemptsFailed 3 e3)]))))"
  unfolding readClipboardWithRetry_def retry_loop_first retry_loop_second retry_loop_third
  by (simp del: One_nat_def split: prod.splits sum.splits)

lemma snd_and_then:
  "snd (and_then x f) = (case fst x of Inl e \<Rightarrow> snd x | Inr a \<Rightarrow> snd x @ snd (f a))"
  by (cases x; cases "fst x") (auto split: prod.splits)

lemma block_logs:
  "filter is_message (snd (read_text_block n k r)) = []"
  "filter is_message (snd (read_rtf_block n k r)) = []"
  "filter is_message (snd (read_html_block n k r)) = []"
  "filter is_message (snd (read_image_block n k r)) = []"
  "filter is_message (snd (read_files_block n k r)) = []"
  by (simp_all add: read_text_block_def read_rtf_block_def read_html_block_def
      read_image_block_def read_files_block_def split: sum.splits option.splits)

lemma attempt_logs: "filter is_message (snd (read_attempt n k)) = []"
  by (simp add: read_attempt_def through_image_def through_html_def through_rtf_def
      through_text_def snd_and_then block_logs split: sum.splits)

lemma retry_cases:
  "readClipboardWithRetry clip =
     (case fst (read_attempt (clip 1) 1) of
        Inr r \<Rightarrow> (Inr r, snd (read_attempt (clip 1) 1))
      | Inl e1 \<Rightarrow>
          (case fst (read_attempt (clip 2) 2) of
             Inr r \<Rightarrow> (Inr r, snd (read_attempt (clip 1) 1) @ [Delay 200]
                                @ snd (read_attempt (clip 2) 2))
           | Inl e2 \<Rightarrow>
               (case fst (read_attempt (clip 3) 3) of
                  Inr r \<Rightarrow> (Inr r, snd (read_attempt (clip 1) 1) @ [Delay 200]
                                     @ snd (read_attempt (clip 2) 2) @ [Delay 200]
                                     @ snd (read_attempt (clip 3) 3))
                | Inl e3 \<Rightarrow>
                    (Inl e3, snd (read_attempt (clip 1) 1) @ [Delay 200]
                             @ snd (read_attempt (clip 2) 2) @ [Delay 200]
                             @ snd (read_attempt (clip 3) 3)
                             @ [LogError (AllAttemptsFailed 3 e3)]))))"
proof -
  obtain x1 l1 where a1: "read_attempt (clip 1) 1 = (x1, l1)"
    by (cases "read_attempt (clip 1) 1")
  obtain x2 l2 where a2: "read_attempt (clip 2) 2 = (x2, l2)"
    by (cases "read_attempt (clip 2) 2")
  obtain x3 l3 where a3: "read_attempt (clip 3) 3 = (x3, l3)"
    by (cases "read_attempt (clip 3) 3")
  show ?thesis
    unfolding retry_unroll a1 a2 a3
    by (cases x1; cases x2; cases x3) simp_all
qed

lemma retry_logs: "filter is_message (snd (readClipboardWithRetry clip)) = []"
  unfolding retry_cases
  by (cases "fst (read_attempt (clip 1) 1)"; cases "fst (read_attempt (clip 2) 2)";
      cases "fst (read_attempt (clip 3) 3)")
     (simp_all del: One_nat_def add: attempt_logs)

lemma trace_emit [simp]: "w_trace (emit e w) = w_trace w @ [e]"
  by (simp add: emit_def)

lemma trace_emits [simp]: "w_trace (emits es w) = w_trace w @ es"
  by (simp add: emits_def)

lemma trace_upsert:
  "\<exists>t. w_trace (upsert data sqlData w) = w_trace w @ t \<and> filter is_message t = []"
  by (auto simp: upsert_def selectHistory_def updateHistory_def insertHistory_def
      list_unshift_def list_remove_def split: list.splits)

lemma pass_trace_append:
  "w_trace (processClipboard c clip w) = w_trace w @ pass_trace c clip w"
proof -
  have up: "\<exists>t. w_trace (upsert d s (emits l w)) = w_trace w @ t" for d s l
    using trace_upsert [of d s "emits l w"] by auto
  have "\<exists>t. w_trace (processClipboard c clip w) = w_trace w @ t"
    unfolding processClipboard_def
    by (simp add: Let_def up split: sum.splits prod.splits)
  then show ?thesis by (auto simp: pass_trace_def)
qed

lemma no_message_notin:
  "filter is_message t = [] \<Longrightarrow> MessageWarning k \<notin> set t"
  by (auto simp: filter_empty_conv)

lemma success_no_read_warning:
  assumes "fst (readClipboardWithRetry clip) = Inr r"
  shows "read_failed \<notin> set (pass_trace c clip w)"
proof -
  obtain l where rd: "readClipboardWithRetry clip = (Inr r, l)"
    using assms by (cases "readClipboardWithRetry clip") auto
  have l: "read_failed \<notin> set l"
    using retry_logs [of clip] rd by (simp add: read_failed_def no_message_notin)
  have up: "read_failed \<notin> set (drop (length (w_trace w)) (w_trace (upsert d s (emits l w))))"
    for d s
  proof -
    obtain t where t: "w_trace (upsert d s (emits l w)) = w_trace (emits l w) @ t"
      "filter is_message t = []"
      using trace_upsert by blast
    then show ?thesis using l by (simp add: read_failed_def no_message_notin)
  qed
  show ?thesis
    unfolding pass_trace_def processClipboard_def rd
    using l by (simp add: Let_def up [unfolded read_failed_def] read_failed_def split: sum.splits)
qed

lemma success_no_warning:
  assumes "fst (readClipboardWithRetry clip) = Inr r"
    and "\<not> isl (storage_projection c (build_record c r))"
  shows "filter is_message (pass_trace c clip w) = []"
proof -
  obtain l where rd: "readClipboardWithRetry clip = (Inr r, l)"
    using assms(1) by (cases "readClipboardWithRetry clip") auto
  have l: "filter is_message l = []"
    using retry_logs [of clip] rd by simp
  have up: "filter is_message (drop (length (w_trace w)) (w_trace (upsert d s (emits l w)))) = []"
    for d s
  proof -
    obtain t where t: "w_trace (upsert d s (emits l w)) = w_trace (emits l w) @ t"
      "filter is_message t = []"
      using trace_upsert by blast
    then show ?thesis using l by simp
  qed
  show ?thesis
    unfolding pass_trace_def processClipboard_def rd
    using l assms(2) by (auto simp: Let_def up split: sum.splits)
qed

lemma exhausted_pass:
  assumes "readClipboardWithRetry clip = (Inl e, l)"
  shows "processClipboard c clip w =
           w\<lparr>w_trace := w_trace w @ l @ [LogError (ReadFailedAfterRetries e), read_failed]\<rparr>"
  using assms by (simp add: processClipboard_def emit_def emits_def read_failed_def)

text \<open>
  C4. The read is attempted at most three times (the result depends on the clipboard
  of attempts 1, 2 and 3 only), with a 200 ms delay after each failed attempt but the
  last. When attempt 1, 2 or 3 is the first to succeed, its snapshot is returned; the
  reader shows no warning, the pass shows no read-failure warning, and it shows no
  warning at all unless \<open>fullName\<close> rejects afterwards. When all three
  attempts throw, the third error is thrown to the caller without a snapshot, and the
  pass appends the read's log lines, one error line and exactly one warning, the
  read-failure one, to the trace, leaving the list, the store and the filter as they
  were.
\<close>

theorem retry_policy:
  "(clip' 1 = clip 1 \<and> clip' 2 = clip 2 \<and> clip' 3 = clip 3 \<longrightarrow>
      readClipboardWithRetry clip' = readClipboardWithRetry clip)
   \<and> (fst (read_attempt (clip 1) 1) = Inr r \<longrightarrow>
        readClipboardWithRetry clip = (Inr r, snd (read_attempt (clip 1) 1)))
   \<and> (fst (read_attempt (clip 1) 1) = Inl e1 \<and> fst (read_attempt (clip 2) 2) = Inr r \<longrightarrow>
        readClipboardWithRetry clip =
          (Inr r, snd (read_attempt (clip 1) 1) @ [Delay 200] @ snd (read_attempt (clip 2) 2)))
   \<and> (fst (read_attempt (clip 1) 1) = Inl e1 \<and> fst (read_attempt (clip 2) 2) = Inl e2
        \<and> fst (read_attempt (clip 3) 3) = Inr r \<longrightarrow>
        readClipboardWithRetry clip =
          (Inr r, snd (read_attempt (clip 1) 1) @ [Delay 200] @ snd (read_attempt (clip 2) 2)
                  @ [Delay 200] @ snd (read_attempt (clip 3) 3)))
   \<and> (fst (readClipboardWithRetry clip) = Inr r \<longrightarrow>
        filter is_message (snd (readClipboardWithRetry clip)) = []
        \<and> read_failed \<notin> set (pass_trace c clip w)
        \<and> (\<not> isl (storage_projection c (build_record c r)) \<longrightarrow>
             filter is_message (pass_trace c clip w) = []))
   \<and> (fst (read_attempt (clip 1) 1) = Inl e1 \<and> fst (read_attempt (clip 2) 2) = Inl e2
        \<and> fst (read_attempt (clip 3) 3) = Inl e3 \<longrightarrow>
        readClipboardWithRetry clip =
          (Inl e3, snd (read_attempt (clip 1) 1) @ [Delay 200] @ snd (read_attempt (clip 2) 2)
                   @ [Delay 200] @ snd (read_attempt (clip 3) 3)
                   @ [LogError (AllAttemptsFailed 3 e3)])
        \<and> pass_trace c clip w =
            snd (readClipboardWithRetry clip) @ [LogError (ReadFailedAfterRetries e3), read_failed]
        \<and> filter is_message (pass_trace c clip w) = [read_failed]
        \<and> w_list (processClipboard c clip w) = w_list w
        \<and> w_store (processClipboard c clip w) = w_store w
        \<and> w_group (processClipboard c clip w) = w_group w)"
  (is "?A \<and> ?S1 \<and> ?S2 \<and> ?S3 \<and> ?W \<and> ?X")
proof -
  have A: ?A
  proof (intro impI, elim conjE)
    assume a: "clip' 1 = clip 1" "clip' 2 = clip 2" "clip' 3 = clip 3"
    show "readClipboardWithRetry clip' = readClipboardWithRetry clip"
      unfolding retry_cases a by (rule refl)
  qed
  have S1: ?S1 by (simp add: retry_cases del: One_nat_def)
  have S2: ?S2 by (simp add: retry_cases del: One_nat_def)
  have S3: ?S3 by (simp add: retry_cases del: One_nat_def)
  have W: ?W using retry_logs success_no_read_warning success_no_warning by blast
  have X: ?X
  proof (intro impI, elim conjE)
    assume a: "fst (read_attempt (clip 1) 1) = Inl e1" "fst (read_attempt (clip 2) 2) = Inl e2"
      "fst (read_attempt (clip 3) 3) = Inl e3"
    let ?l = "snd (read_attempt (clip 1) 1) @ [Delay 200] @ snd (read_attempt (clip 2) 2)
                   @ [Delay 200] @ snd (read_attempt (clip 3) 3)
                   @ [LogError (AllAttemptsFailed 3 e3)]"
    have rd: "readClipboardWithRetry clip = (Inl e3, ?l)"
      using a by (simp add: retry_cases del: One_nat_def)
    have msgs: "filter is_message ?l = []"
      using retry_logs [of clip] rd by simp
    note pass = exhausted_pass [OF rd, of c w]
    have tr: "pass_trace c clip w = ?l @ [LogError (ReadFailedAfterRetries e3), read_failed]"
      unfolding pass_trace_def pass by simp
    have one: "filter is_message (pass_trace c clip w) = [read_failed]"
      unfolding tr using msgs by (simp add: read_failed_def del: One_nat_def)
    show "readClipboardWithRetry clip = (Inl e3, ?l)
        \<and> pass_trace c clip w =
            snd (readClipboardWithRetry clip) @ [LogError (ReadFailedAfterRetries e3), read_failed]
        \<and> filter is_message (pass_trace c clip w) = [read_failed]
        \<and> w_list (processClipboard c clip w) = w_list w
        \<and> w_store (processClipboard c clip w) = w_store w
        \<and> w_group (processClipboard c clip w) = w_group w"
      using rd tr one by (simp add: pass del: One_nat_def)
  qed
  from A S1 S2 S3 W X show ?thesis by blast
qed

lemma example_attempts:
  "read_attempt text_fails k = (Inl locked, [LogWarn (ReadFormatFailed Text k locked)])"
  "read_attempt holds_hi k = (Inr text_only, [])"
  by (simp_all add: text_fails_def holds_hi_def quiet_def text_only_def reader_defs)

theorem retry_policy_witness:
  "readClipboardWithRetry (succeeds_at 4) = readClipboardWithRetry (succeeds_at 5)
   \<and> readClipboardWithRetry (succeeds_at 1) = (Inr text_only, [])
   \<and> readClipboardWithRetry (succeeds_at 2) =
       (Inr text_only, [LogWarn (ReadFormatFailed Text 1 locked), Delay 200])
   \<and> readClipboardWithRetry (succeeds_at 3) =
       (Inr text_only, [LogWarn (ReadFormatFailed Text 1 locked), Delay 200,
                        LogWarn (ReadFormatFailed Text 2 locked), Delay 200])
   \<and> filter is_message (pass_trace example_cfg (succeeds_at 3) empty_world) = []
   \<and> readClipboardWithRetry (succeeds_at 4) =
       (Inl locked, [LogWarn (ReadFormatFailed Text 1 locked), Delay 200,
                     LogWarn (ReadFormatFailed Text 2 locked), Delay 200,
                     LogWarn (ReadFormatFailed Text 3 locked),
                     LogError (AllAttemptsFailed 3 locked)])
   \<and> filter is_message (pass_trace example_cfg (succeeds_at 4) empty_world) = [read_failed]
   \<and> w_list (processClipboard example_cfg (succeeds_at 4) empty_world) = []
   \<and> w_store (processClipboard example_cfg (succeeds_at 4) empty_world) = []"
proof -
  have c0: "readClipboardWithRetry (succeeds_at 4) = readClipboardWithRetry (succeeds_at 5)"
    using retry_policy [where clip' = "succeeds_at 4" and clip = "succeeds_at 5"]
    by (simp add: succeeds_at_def)
  have c1: "readClipboardWithRetry (succeeds_at 1) = (Inr text_only, [])"
    using retry_policy [where clip = "succeeds_at 1" and r = text_only]
    by (simp add: succeeds_at_def example_attempts del: One_nat_def)
  have c2: "readClipboardWithRetry (succeeds_at 2) =
       (Inr text_only, [LogWarn (ReadFormatFailed Text 1 locked), Delay 200])"
    using retry_policy [where clip = "succeeds_at 2" and r = text_only and ?e1.0 = locked]
    by (simp add: succeeds_at_def example_attempts del: One_nat_def)
  have c3: "readClipboardWithRetry (succeeds_at 3) =
       (Inr text_only, [LogWarn (ReadFormatFailed Text 1 locked), Delay 200,
                        LogWarn (ReadFormatFailed Text 2 locked), Delay 200])"
    using retry_policy [where clip = "succeeds_at 3" and r = text_only and ?e1.0 = locked
        and ?e2.0 = locked]
    by (simp add: succeeds_at_def example_attempts del: One_nat_def)
  have pr: "\<not> isl (storage_projection example_cfg (build_record example_cfg text_only))"
    by (simp add: storage_projection_def build_record_def new_data_def
        assign_text_format_def Let_def text_only_def empty_result_def)
  have c4: "filter is_message (pass_trace example_cfg (succeeds_at 3) empty_world) = []"
    using retry_policy [where clip = "succeeds_at 3" and r = text_only and c = example_cfg
        and w = empty_world] c3 pr
    by simp
  have c5: "readClipboardWithRetry (succeeds_at 4) =
       (Inl locked, [LogWarn (ReadFormatFailed Text 1 locked), Delay 200,
                     LogWarn (ReadFormatFailed Text 2 locked), Delay 200,
                     LogWarn (ReadFormatFailed Text 3 locked),
                     LogError (AllAttemptsFailed 3 locked)])
   \<and> filter is_message (pass_trace example_cfg (succeeds_at 4) empty_world) = [read_failed]
   \<and> w_list (processClipboard example_cfg (succeeds_at 4) empty_world) = []
   \<and> w_store (processClipboard example_cfg (succeeds_at 4) empty_world) = []"
    using retry_policy [where clip = "succeeds_at 4" and ?e1.0 = locked and ?e2.0 = locked
        and ?e3.0 = locked and c = example_cfg and w = empty_world]
    by (simp add: succeeds_at_def example_attempts empty_world_def read_failed_def
        del: One_nat_def)
  from c0 c1 c2 c3 c4 c5 show ?thesis by simp
qed

section \<open>The classifier\<close>

lemmas classifier_defs =
  build_record_def new_data_def assign_files_def assign_text_format_def assign_image_def Let_def

lemma empty_pass:
  "readClipboardWithRetry clip = (Inr r, l) \<Longrightarrow> is_empty_result r \<Longrightarrow>
     processClipboard c clip w = emits l w"
  by (simp add: processClipboard_def)


text \<open>
  C2. The record builder takes the first branch that applies, in this order: files;
  HTML when \<open>copyPlain\<close> is off; RTF when \<open>copyPlain\<close> is off; text, with its
  subtype; image; and, when \<open>copyPlain\<close> is on and HTML or RTF is present, a text
  record whose value is the first non-empty of \<open>search\<close> (the text value), the HTML
  value and the RTF value, whose count is the length of that value and whose subtype
  is classified from it. When no branch applies the record has no type, and a pass
  that read this snapshot leaves the store and the list as they were.
\<close>

theorem classifier_precedence:
  "(rc_files r = Some f \<longrightarrow>
      h_type (build_record c r) = Some Files
      \<and> h_value (build_record c r) = Some (Paths (f_value f))
      \<and> h_count (build_record c r) = Some (f_count f)
      \<and> h_search (build_record c r) = Some (join '' '' (f_value f))
      \<and> h_group (build_record c r) = GFiles)
   \<and> (rc_files r = None \<and> rc_html r = Some h \<and> \<not> copyPlain c \<longrightarrow>
      h_type (build_record c r) = Some Html
      \<and> h_value (build_record c r) = Some (Str (t_value h))
      \<and> h_count (build_record c r) = Some (t_count h))
   \<and> (rc_files r = None \<and> rc_html r = None \<and> rc_rtf r = Some t \<and> \<not> copyPlain c \<longrightarrow>
      h_type (build_record c r) = Some Rtf
      \<and> h_value (build_record c r) = Some (Str (t_value t))
      \<and> h_count (build_record c r) = Some (t_count t))
   \<and> (rc_files r = None \<and> (copyPlain c \<or> rc_html r = None \<and> rc_rtf r = None)
        \<and> rc_text r = Some x \<longrightarrow>
      h_type (build_record c r) = Some Text
      \<and> h_value (build_record c r) = Some (Str (t_value x))
      \<and> h_count (build_record c r) = Some (t_count x)
      \<and> h_subtype (build_record c r) = getClipboardTextSubtype c (t_value x))
   \<and> (rc_files r = None \<and> (copyPlain c \<or> rc_html r = None \<and> rc_rtf r = None)
        \<and> rc_text r = None \<and> rc_image r = Some i \<longrightarrow>
      h_type (build_record c r) = Some Image
      \<and> h_value (build_record c r) = Some (Str (i_value i))
      \<and> h_count (build_record c r) = Some (i_count i)
      \<and> h_width (build_record c r) = Some (i_width i)
      \<and> h_height (build_record c r) = Some (i_height i)
      \<and> h_group (build_record c r) = GImage)
   \<and> (rc_files r = None \<and> rc_text r = None \<and> rc_image r = None \<and> copyPlain c
        \<and> (rc_html r \<noteq> None \<or> rc_rtf r \<noteq> None)
        \<and> v = first_truthy [map_option t_value (rc_text r), map_option t_value (rc_html r),
                             map_option t_value (rc_rtf r)] \<longrightarrow>
      h_type (build_record c r) = Some Text
      \<and> h_value (build_record c r) = Some (Str v)
      \<and> h_count (build_record c r) = Some (length v)
      \<and> h_subtype (build_record c r) = getClipboardTextSubtype c v)
   \<and> (rc_files r = None \<and> \<not> (rc_html r \<noteq> None \<and> \<not> copyPlain c)
        \<and> \<not> (rc_rtf r \<noteq> None \<and> \<not> copyPlain c) \<and> rc_text r = None \<and> rc_image r = None
        \<and> \<not> (copyPlain c \<and> (rc_html r \<noteq> None \<or> rc_rtf r \<noteq> None)) \<longrightarrow>
      h_type (build_record c r) = None
      \<and> (readClipboardWithRetry clip = (Inr r, l) \<longrightarrow>
           w_store (processClipboard c clip w) = w_store w
           \<and> w_list (processClipboard c clip w) = w_list w))"
  (is "?F \<and> ?H \<and> ?R \<and> ?T \<and> ?I \<and> ?P \<and> ?N")
proof -
  have F: ?F by (simp add: classifier_defs)
  have H: ?H by (simp add: classifier_defs)
  have R: ?R by (simp add: classifier_defs)
  have T: ?T by (auto simp: classifier_defs)
  have I: ?I by (auto simp: classifier_defs)
  have P: ?P by (auto simp: classifier_defs)
  have N: ?N
  proof (intro impI, elim conjE)
    assume a: "rc_files r = None" "\<not> (rc_html r \<noteq> None \<and> \<not> copyPlain c)"
      "\<not> (rc_rtf r \<noteq> None \<and> \<not> copyPlain c)" "rc_text r = None" "rc_image r = None"
      "\<not> (copyPlain c \<and> (rc_html r \<noteq> None \<or> rc_rtf r \<noteq> None))"
    then have e: "is_empty_result r"
      by (auto simp: is_empty_result_def)
    have t: "h_type (build_record c r) = None"
      using a by (auto simp: classifier_defs)
    show "h_type (build_record c r) = None
      \<and> (readClipboardWithRetry clip = (Inr r, l) \<longrightarrow>
           w_store (processClipboard c clip w) = w_store w
           \<and> w_list (processClipboard c clip w) = w_list w)"
      using t empty_pass [OF _ e, of clip l c w] by (simp add: emits_def)
  qed
  from F H R T I P N show ?thesis by blast
qed

lemma example_simps:
  "copyPlain example_cfg = False" "copyPlain plain_cfg = True"
  "w_store empty_world = []" "w_list empty_world = []" "w_trace empty_world = []"
  "w_group empty_world = GroupAll"
  by (simp_all add: example_cfg_def plain_cfg_def empty_world_def)

theorem classifier_precedence_witness:
  "h_type (build_record example_cfg files_and_text) = Some Files
   \<and> h_search (build_record example_cfg files_and_text) = Some ''a b''
   \<and> h_type (build_record example_cfg html_and_text) = Some Html
   \<and> h_type (build_record example_cfg rtf_and_text) = Some Rtf
   \<and> h_type (build_record plain_cfg html_and_text) = Some Text
   \<and> h_value (build_record plain_cfg html_and_text) = Some (Str ''hi'')
   \<and> h_type (build_record example_cfg image_only) = Some Image
   \<and> h_type (build_record plain_cfg html_only) = Some Text
   \<and> h_value (build_record plain_cfg html_only) = Some (Str ''<b/>'')
   \<and> h_count (build_record plain_cfg html_only) = Some 4
   \<and> h_type (build_record example_cfg empty_result) = None
   \<and> w_store (processClipboard example_cfg (\<lambda>k. quiet) empty_world) = []
   \<and> w_list (processClipboard example_cfg (\<lambda>k. quiet) empty_world) = []"
proof -
  have c1: "h_type (build_record example_cfg files_and_text) = Some Files
      \<and> h_search (build_record example_cfg files_and_text) = Some ''a b''"
    using classifier_precedence [where r = files_and_text and c = example_cfg
        and f = "\<lparr>f_count = 10, f_value = [''a'', ''b'']\<rparr>"]
    by (simp add: files_and_text_def empty_result_def)
  have c2: "h_type (build_record example_cfg html_and_text) = Some Html"
    using classifier_precedence [where r = html_and_text and c = example_cfg
        and h = "\<lparr>t_count = 2, t_value = ''<b>hi</b>''\<rparr>"]
    by (simp add: html_and_text_def empty_result_def example_simps)
  have c3: "h_type (build_record example_cfg rtf_and_text) = Some Rtf"
    using classifier_precedence [where r = rtf_and_text and c = example_cfg
        and t = "\<lparr>t_count = 2, t_value = ''{rtf hi}''\<rparr>"]
    by (simp add: rtf_and_text_def empty_result_def example_simps)
  have c4: "h_type (build_record plain_cfg html_and_text) = Some Text
      \<and> h_value (build_record plain_cfg html_and_text) = Some (Str ''hi'')"
    using classifier_precedence [where r = html_and_text and c = plain_cfg
        and x = "\<lparr>t_count = 2, t_value = ''hi''\<rparr>"]
    by (simp add: html_and_text_def empty_result_def example_simps)
  have c5: "h_type (build_record example_cfg image_only) = Some Image"
    using classifier_precedence [where r = image_only and c = example_cfg
        and i = "\<lparr>i_count = 2048, i_value = ''tmp/a.png'', i_width = 100, i_height = 50\<rparr>"]
    by (simp add: image_only_def empty_result_def example_simps)
  have c6: "h_type (build_record plain_cfg html_only) = Some Text
      \<and> h_value (build_record plain_cfg html_only) = Some (Str ''<b/>'')
      \<and> h_count (build_record plain_cfg html_only) = Some 4"
    using classifier_precedence [where r = html_only and c = plain_cfg and v = "''<b/>''"]
    by (simp add: html_only_def empty_result_def example_simps)
  have rd: "readClipboardWithRetry (\<lambda>k. quiet) = (Inr empty_result, [])"
    by (simp add: retry_cases quiet_def reader_defs del: One_nat_def)
  have c7: "h_type (build_record example_cfg empty_result) = None
      \<and> w_store (processClipboard example_cfg (\<lambda>k. quiet) empty_world) = []
      \<and> w_list (processClipboard example_cfg (\<lambda>k. quiet) empty_world) = []"
    using classifier_precedence [where r = empty_result and c = example_cfg
        and clip = "\<lambda>k. quiet" and l = "[]" and w = empty_world] rd
    by (simp add: empty_result_def example_simps)
  from c1 c2 c3 c4 c5 c6 c7 show ?thesis by simp
qed

section \<open>The zero-byte image guard\<close>

lemma block_touches:
  "filter touches_state (snd (read_text_block n k r)) = []"
  "filter touches_state (snd (read_rtf_block n k r)) = []"
  "filter touches_state (snd (read_html_block n k r)) = []"
  "filter touches_state (snd (read_image_block n k r)) = []"
  "filter touches_state (snd (read_files_block n k r)) = []"
  by (simp_all add: read_text_block_def read_rtf_block_def read_html_block_def
      read_image_block_def read_files_block_def split: sum.splits option.splits)

lemma attempt_touches: "filter touches_state (snd (read_attempt n k)) = []"
  by (simp add: read_attempt_def through_image_def through_html_def through_rtf_def
      through_text_def snd_and_then block_touches split: sum.splits)

lemma retry_touches: "filter touches_state (snd (readClipboardWithRetry clip)) = []"
  unfolding retry_cases
  by (cases "fst (read_attempt (clip 1) 1)"; cases "fst (read_attempt (clip 2) 2)";
      cases "fst (read_attempt (clip 3) 3)")
     (simp_all del: One_nat_def add: attempt_touches)

lemma empty_untyped:
  "is_empty_result r \<Longrightarrow> h_type (build_record c r) = None"
  by (simp add: classifier_defs is_empty_result_def)

lemma typed_not_empty:
  "h_type (build_record c r) \<noteq> None \<Longrightarrow> \<not> is_empty_result r"
  using empty_untyped [of r c] by auto

text \<open>
  C5. A pass whose record is an image with \<open>count = 0\<close> appends the read's log lines
  and one warning line to the trace and nothing else: no query, insert or update on
  the store, no change of the list, no user-visible warning; the store and the list
  are as they were.
\<close>

theorem zero_byte_image_dropped:
  "readClipboardWithRetry clip = (Inr r, l) \<and> h_type (build_record c r) = Some Image
     \<and> h_count (build_record c r) = Some 0 \<longrightarrow>
   pass_trace c clip w = l @ [LogWarn ZeroByteImage]
   \<and> filter touches_state (pass_trace c clip w) = []
   \<and> filter is_message (pass_trace c clip w) = []
   \<and> w_store (processClipboard c clip w) = w_store w
   \<and> w_list (processClipboard c clip w) = w_list w"
proof (intro impI, elim conjE)
  assume rd: "readClipboardWithRetry clip = (Inr r, l)"
    and ty: "h_type (build_record c r) = Some Image"
    and cn: "h_count (build_record c r) = Some 0"
  have ne: "\<not> is_empty_result r"
    using typed_not_empty [of c r] ty by simp
  have pass: "processClipboard c clip w = emit (LogWarn ZeroByteImage) (emits l w)"
    using rd ty cn ne by (simp add: processClipboard_def Let_def)
  have tr: "pass_trace c clip w = l @ [LogWarn ZeroByteImage]"
    by (simp add: pass_trace_def pass)
  have l: "filter touches_state l = []" "filter is_message l = []"
    using retry_touches [of clip] retry_logs [of clip] rd by simp_all
  show "pass_trace c clip w = l @ [LogWarn ZeroByteImage]
   \<and> filter touches_state (pass_trace c clip w) = []
   \<and> filter is_message (pass_trace c clip w) = []
   \<and> w_store (processClipboard c clip w) = w_store w
   \<and> w_list (processClipboard c clip w) = w_list w"
    using tr l by (simp add: pass emit_def emits_def)
qed

theorem zero_byte_image_dropped_witness:
  "fst (readClipboardWithRetry (\<lambda>k. zero_image)) = Inr zero_image_snapshot
   \<and> h_type (build_record example_cfg zero_image_snapshot) = Some Image
   \<and> h_count (build_record example_cfg zero_image_snapshot) = Some 0
   \<and> pass_trace example_cfg (\<lambda>k. zero_image) empty_world = [LogWarn ZeroByteImage]
   \<and> w_store (processClipboard example_cfg (\<lambda>k. zero_image) empty_world) = []
   \<and> w_list (processClipboard example_cfg (\<lambda>k. zero_image) empty_world) = []"
proof -
  let ?r = zero_image_snapshot
  have rd: "readClipboardWithRetry (\<lambda>k. zero_image) = (Inr ?r, [])"
    by (simp add: retry_cases zero_image_def zero_image_snapshot_def quiet_def reader_defs
        del: One_nat_def)
  have b: "h_type (build_record example_cfg ?r) = Some Image"
    "h_count (build_record example_cfg ?r) = Some 0"
    by (simp_all add: classifier_defs zero_image_snapshot_def empty_result_def)
  show ?thesis
    using zero_byte_image_dropped [where clip = "\<lambda>k. zero_image" and r = ?r and l = "[]"
        and c = example_cfg and w = empty_world] rd b
    by (simp add: example_simps)
qed

section \<open>The dedup matcher and the upsert\<close>

lemma candidate_pass:
  assumes "candidate c clip = Some (data, sqlData, l)"
  shows "processClipboard c clip w = upsert data sqlData (emits l w)"
proof -
  obtain x l' where rd: "readClipboardWithRetry clip = (x, l')"
    by (cases "readClipboardWithRetry clip")
  show ?thesis
    using assms unfolding candidate_def processClipboard_def rd
    by (cases x) (auto simp: Let_def split: if_splits sum.splits)
qed

lemma candidate_built:
  assumes "candidate c clip = Some (data, sqlData, l)"
  shows "\<exists>r. data = build_record c r \<and> storage_projection c data = Inr sqlData
           \<and> h_type data \<noteq> None \<and> filter is_message l = [] \<and> filter touches_state l = []"
proof -
  obtain x l' where rd: "readClipboardWithRetry clip = (x, l')"
    by (cases "readClipboardWithRetry clip")
  have "filter is_message l' = []" "filter touches_state l' = []"
    using retry_logs [of clip] retry_touches [of clip] rd by simp_all
  then show ?thesis
    using assms unfolding candidate_def rd
    by (cases x) (auto simp: Let_def split: if_splits sum.splits)
qed

lemma built_fields:
  "h_type (build_record c r) \<noteq> None \<Longrightarrow>
     h_value (build_record c r) \<noteq> None \<and> h_count (build_record c r) \<noteq> None"
  "h_type (build_record c r) = Some Image \<Longrightarrow>
     h_width (build_record c r) \<noteq> None \<and> h_height (build_record c r) \<noteq> None
     \<and> (\<exists>p. h_value (build_record c r) = Some (Str p))"
  "h_type (build_record c r) = Some Files \<Longrightarrow>
     (\<exists>ps. h_value (build_record c r) = Some (Paths ps))"
  by (auto simp: classifier_defs split: if_splits)

lemma projection_fields:
  assumes "storage_projection c data = Inr sqlData"
  shows "sqlData = data\<lparr>h_value := h_value sqlData\<rparr>"
    and "h_type data = Some Image \<Longrightarrow>
           \<exists>p. fullName c (h_value data) = Inr p \<and> h_value sqlData = Some (Str p)"
    and "h_type data = Some Files \<Longrightarrow>
           h_value sqlData = map_option (\<lambda>v. Str (stringify c v)) (h_value data)"
    and "h_type data \<noteq> Some Image \<Longrightarrow> h_type data \<noteq> Some Files \<Longrightarrow> sqlData = data"
  using assms by (auto simp: storage_projection_def split: if_splits sum.splits)

lemma projection_type:
  "storage_projection c data = Inr sqlData \<Longrightarrow> h_type sqlData = h_type data"
  by (auto simp: storage_projection_def split: if_splits sum.splits)

lemma candidate_values:
  assumes "candidate c clip = Some (data, sqlData, l)"
  shows "h_type sqlData = h_type data" "h_type data \<noteq> None" "h_value sqlData \<noteq> None"
    "h_count data \<noteq> None"
    "h_type data = Some Image \<Longrightarrow> h_width data \<noteq> None \<and> h_height data \<noteq> None"
proof -
  obtain r where r: "data = build_record c r" "storage_projection c data = Inr sqlData"
    "h_type data \<noteq> None"
    using candidate_built [OF assms] by blast
  show "h_type sqlData = h_type data" using projection_type [OF r(2)] .
  show "h_type data \<noteq> None" by (rule r(3))
  have v: "h_value data \<noteq> None" and cnt: "h_count data \<noteq> None"
    using built_fields(1) [of c r] r(1,3) by auto
  show "h_count data \<noteq> None" by (rule cnt)
  show "h_value sqlData \<noteq> None"
    using r(2) v by (auto simp: storage_projection_def split: if_splits sum.splits)
  show "h_type data = Some Image \<Longrightarrow> h_width data \<noteq> None \<and> h_height data \<noteq> None"
    using built_fields(2) [of c r] r(1) by auto
qed

text \<open>
  C1. A pass that builds a record with a type (other than a zero-byte image) and its
  storage-ready projection continues with the query. The rows the query returns are exactly the
  stored rows that, for an image record, have type image and either the value of the
  storage-ready record (the result of \<open>fullName\<close>) or the record's width, height and
  count; and for any other record, have the record's type and the value of the
  storage-ready record (for files the serialised path array, for text, RTF and HTML
  the captured value itself).
\<close>

theorem dedup_key:
  "candidate c clip = Some (data, sqlData, l) \<longrightarrow>
     processClipboard c clip w = upsert data sqlData (emits l w)
     \<and> (h_type data = Some Image \<longrightarrow>
        (row \<in> set (fst (selectHistory (dedup_query data sqlData) w)) \<longleftrightarrow>
           row \<in> set (w_store w) \<and> h_type row = Some Image
           \<and> (h_value row = h_value sqlData
              \<or> (h_width row = h_width data \<and> h_height row = h_height data
                 \<and> h_count row = h_count data))))
     \<and> (h_type data \<noteq> Some Image \<longrightarrow>
        (row \<in> set (fst (selectHistory (dedup_query data sqlData) w)) \<longleftrightarrow>
           row \<in> set (w_store w) \<and> h_type row = h_type data
           \<and> h_value row = h_value sqlData))
     \<and> (h_type data = Some Image \<longrightarrow>
        (\<exists>p d. h_value data = Some (Str p) \<and> fullName c (h_value data) = Inr d
               \<and> h_value sqlData = Some (Str d)))
     \<and> (h_type data = Some Files \<longrightarrow>
        (\<exists>ps. h_value data = Some (Paths ps)
              \<and> h_value sqlData = Some (Str (stringify c (Paths ps)))))
     \<and> (h_type data = Some Text \<or> h_type data = Some Rtf \<or> h_type data = Some Html \<longrightarrow>
        h_value sqlData = h_value data)"
proof
  assume cand: "candidate c clip = Some (data, sqlData, l)"
  note v = candidate_values [OF cand]
  obtain r where r: "data = build_record c r" "storage_projection c data = Inr sqlData"
    using candidate_built [OF cand] by blast
  note p = projection_fields [OF r(2)]
  have img: "h_type data = Some Image \<longrightarrow>
        (row \<in> set (fst (selectHistory (dedup_query data sqlData) w)) \<longleftrightarrow>
           row \<in> set (w_store w) \<and> h_type row = Some Image
           \<and> (h_value row = h_value sqlData
              \<or> (h_width row = h_width data \<and> h_height row = h_height data
                 \<and> h_count row = h_count data)))"
    using v by (auto simp: selectHistory_def dedup_query_def sql_eq_def)
  have oth: "h_type data \<noteq> Some Image \<longrightarrow>
        (row \<in> set (fst (selectHistory (dedup_query data sqlData) w)) \<longleftrightarrow>
           row \<in> set (w_store w) \<and> h_type row = h_type data
           \<and> h_value row = h_value sqlData)"
    using v by (auto simp: selectHistory_def dedup_query_def sql_eq_def)
  have iv: "h_type data = Some Image \<longrightarrow>
        (\<exists>p d. h_value data = Some (Str p) \<and> fullName c (h_value data) = Inr d
               \<and> h_value sqlData = Some (Str d))"
    using built_fields(2) [of c r] p(2) r(1) by auto
  have fv: "h_type data = Some Files \<longrightarrow>
        (\<exists>ps. h_value data = Some (Paths ps)
              \<and> h_value sqlData = Some (Str (stringify c (Paths ps))))"
    using built_fields(3) [of c r] p(3) r(1) by auto
  have tv: "h_type data = Some Text \<or> h_type data = Some Rtf \<or> h_type data = Some Html \<longrightarrow>
        h_value sqlData = h_value data"
    using p(4) by auto
  note ps = candidate_pass [OF cand, of w]
  from ps img oth iv fv tv
  show "processClipboard c clip w = upsert data sqlData (emits l w)
     \<and> (h_type data = Some Image \<longrightarrow>
        (row \<in> set (fst (selectHistory (dedup_query data sqlData) w)) \<longleftrightarrow>
           row \<in> set (w_store w) \<and> h_type row = Some Image
           \<and> (h_value row = h_value sqlData
              \<or> (h_width row = h_width data \<and> h_height row = h_height data
                 \<and> h_count row = h_count data))))
     \<and> (h_type data \<noteq> Some Image \<longrightarrow>
        (row \<in> set (fst (selectHistory (dedup_query data sqlData) w)) \<longleftrightarrow>
           row \<in> set (w_store w) \<and> h_type row = h_type data
           \<and> h_value row = h_value sqlData))
     \<and> (h_type data = Some Image \<longrightarrow>
        (\<exists>p d. h_value data = Some (Str p) \<and> fullName c (h_value data) = Inr d
               \<and> h_value sqlData = Some (Str d)))
     \<and> (h_type data = Some Files \<longrightarrow>
        (\<exists>ps. h_value data = Some (Paths ps)
              \<and> h_value sqlData = Some (Str (stringify c (Paths ps)))))
     \<and> (h_type data = Some Text \<or> h_type data = Some Rtf \<or> h_type data = Some Html \<longrightarrow>
        h_value sqlData = h_value data)"
    by blast
qed

lemma example_reads:
  "readClipboardWithRetry (\<lambda>k. image_native) = (Inr image_only, [])"
  "readClipboardWithRetry (\<lambda>k. holds_hi) = (Inr text_only, [])"
  by (simp_all add: retry_cases image_native_def holds_hi_def image_only_def text_only_def
      quiet_def reader_defs del: One_nat_def)

lemma example_captures:
  "image_capture =
     \<lparr>h_createTime = ''2025-06-01 12:00:00'', h_favorite = False, h_group = GImage,
      h_id = ''new-id'', h_search = None, h_type = Some Image,
      h_value = Some (Str ''tmp/a.png''), h_count = Some 2048, h_width = Some 100,
      h_height = Some 50, h_subtype = None\<rparr>"
  "hi_capture =
     \<lparr>h_createTime = ''2025-06-01 12:00:00'', h_favorite = False, h_group = GText,
      h_id = ''new-id'', h_search = Some ''hi'', h_type = Some Text,
      h_value = Some (Str ''hi''), h_count = Some 2, h_width = None, h_height = None,
      h_subtype = None\<rparr>"
  by (simp_all add: image_capture_def hi_capture_def classifier_defs image_only_def
      text_only_def empty_result_def example_cfg_def getClipboardTextSubtype_def)

lemma example_candidates:
  "candidate example_cfg (\<lambda>k. image_native) = Some (image_capture, image_row, [])"
  "candidate example_cfg (\<lambda>k. holds_hi) = Some (hi_capture, hi_capture, [])"
proof -
  have e: "\<not> is_empty_result image_only" "\<not> is_empty_result text_only"
    by (simp_all add: is_empty_result_def image_only_def text_only_def empty_result_def)
  have p: "storage_projection example_cfg image_capture = Inr image_row"
    "storage_projection example_cfg hi_capture = Inr hi_capture"
    by (simp_all add: storage_projection_def image_row_def example_captures example_cfg_def)
  show "candidate example_cfg (\<lambda>k. image_native) = Some (image_capture, image_row, [])"
    using e(1) p(1)
    by (simp add: candidate_def example_reads image_capture_def [symmetric])
       (simp add: example_captures)
  show "candidate example_cfg (\<lambda>k. holds_hi) = Some (hi_capture, hi_capture, [])"
    using e(2) p(2)
    by (simp add: candidate_def example_reads hi_capture_def [symmetric])
       (simp add: example_captures)
qed

lemma files_candidate:
  "candidate example_cfg (\<lambda>k. files_native) = Some (files_capture, files_row, [])"
proof -
  let ?r = "empty_result\<lparr>rc_files := Some \<lparr>f_count = 10, f_value = [''a.txt'', ''b.txt'']\<rparr>\<rparr>"
  have rd: "readClipboardWithRetry (\<lambda>k. files_native) = (Inr ?r, [])"
    by (simp add: retry_cases files_native_def quiet_def reader_defs del: One_nat_def)
  have b: "build_record example_cfg ?r = files_capture"
    by (simp add: files_capture_def classifier_defs empty_result_def example_cfg_def)
  have p: "storage_projection example_cfg files_capture = Inr files_row"
    by (simp add: storage_projection_def files_capture_def files_row_def example_cfg_def)
  have e: "\<not> is_empty_result ?r"
    by (simp add: is_empty_result_def empty_result_def)
  show ?thesis
    using e p by (simp add: candidate_def rd b) (simp add: files_capture_def)
qed

lemma files_select:
  "fst (selectHistory (dedup_query files_capture files_row) files_world) =
     [files_row\<lparr>h_id := ''files-1'', h_createTime := ''2025-01-01 10:00:00''\<rparr>]"
  "fst (selectHistory (dedup_query files_capture files_row) empty_world) = []"
  by (simp_all add: selectHistory_def dedup_query_def sql_eq_def files_world_def
      empty_world_def files_capture_def files_row_def)

theorem dedup_key_witness:
  "candidate example_cfg (\<lambda>k. image_native) = Some (image_capture, image_row, [])
   \<and> h_value stored_image \<noteq> h_value image_row
   \<and> stored_image \<in> set (fst (selectHistory (dedup_query image_capture image_row) history_world))
   \<and> wider_image \<notin> set (fst (selectHistory (dedup_query image_capture image_row) history_world))
   \<and> stored_hi \<notin> set (fst (selectHistory (dedup_query image_capture image_row) history_world))
   \<and> candidate example_cfg (\<lambda>k. holds_hi) = Some (hi_capture, hi_capture, [])
   \<and> stored_hi \<in> set (fst (selectHistory (dedup_query hi_capture hi_capture) history_world))
   \<and> stored_image \<notin> set (fst (selectHistory (dedup_query hi_capture hi_capture) history_world))
   \<and> candidate example_cfg (\<lambda>k. files_native) = Some (files_capture, files_row, [])
   \<and> h_value files_capture = Some (Paths [''a.txt'', ''b.txt''])
   \<and> h_value files_row = Some (Str ''[a.txt,b.txt]'')
   \<and> files_row\<lparr>h_id := ''files-1'', h_createTime := ''2025-01-01 10:00:00''\<rparr>
       \<in> set (fst (selectHistory (dedup_query files_capture files_row) files_world))"
proof -
  note f = dedup_key [where c = example_cfg and clip = "\<lambda>k. files_native"
      and data = files_capture and sqlData = files_row and l = "[]" and w = files_world]
  have c7: "files_row\<lparr>h_id := ''files-1'', h_createTime := ''2025-01-01 10:00:00''\<rparr>
       \<in> set (fst (selectHistory (dedup_query files_capture files_row) files_world))"
    using f [where row = "files_row\<lparr>h_id := ''files-1'',
        h_createTime := ''2025-01-01 10:00:00''\<rparr>"] files_candidate
    by (simp add: files_capture_def files_row_def files_world_def example_cfg_def)
  have c8: "h_value files_capture = Some (Paths [''a.txt'', ''b.txt''])"
    "h_value files_row = Some (Str ''[a.txt,b.txt]'')"
    by (simp_all add: files_capture_def files_row_def)
  note i = dedup_key [where c = example_cfg and clip = "\<lambda>k. image_native"
      and data = image_capture and sqlData = image_row and l = "[]" and w = history_world]
  note t = dedup_key [where c = example_cfg and clip = "\<lambda>k. holds_hi"
      and data = hi_capture and sqlData = hi_capture and l = "[]" and w = history_world]
  have c1: "stored_image \<in> set (fst (selectHistory (dedup_query image_capture image_row) history_world))"
    using i [where row = stored_image] example_candidates(1)
    by (simp add: example_captures image_row_def stored_image_def history_world_def)
  have c2: "wider_image \<notin> set (fst (selectHistory (dedup_query image_capture image_row) history_world))"
    using i [where row = wider_image] example_candidates(1)
    by (simp add: example_captures image_row_def stored_image_def wider_image_def)
  have c3: "stored_hi \<notin> set (fst (selectHistory (dedup_query image_capture image_row) history_world))"
    using i [where row = stored_hi] example_candidates(1)
    by (simp add: example_captures stored_hi_def)
  have c4: "stored_hi \<in> set (fst (selectHistory (dedup_query hi_capture hi_capture) history_world))"
    using t [where row = stored_hi] example_candidates(2)
    by (simp add: example_captures stored_hi_def history_world_def)
  have c5: "stored_image \<notin> set (fst (selectHistory (dedup_query hi_capture hi_capture) history_world))"
    using t [where row = stored_image] example_candidates(2)
    by (simp add: example_captures stored_image_def)
  have c6: "h_value stored_image \<noteq> h_value image_row"
    by (simp add: stored_image_def image_row_def)
  from c1 c2 c3 c4 c5 c6 c7 c8 example_candidates files_candidate show ?thesis by simp
qed

lemma upsert_matched:
  assumes "fst (selectHistory (dedup_query data sqlData) w) = m # rest"
  shows "upsert data sqlData w =
     w\<lparr>w_list := (if visible w data
                   then data\<lparr>h_id := h_id m\<rparr> # filter (\<lambda>x. h_id x \<noteq> h_id m) (w_list w)
                   else w_list w),
       w_store := refresh (h_id m) (h_createTime data) (w_store w),
       w_trace := w_trace w @ [SelectHistory]
                  @ (if visible w data
                     then [ListRemove (h_id m), ListUnshift (data\<lparr>h_id := h_id m\<rparr>)] else [])
                  @ [UpdateHistory (h_id m) (h_createTime data)]\<rparr>"
  using assms
  by (simp add: upsert_def selectHistory_def updateHistory_def list_unshift_def list_remove_def
      emit_def visible_def refresh_def)

lemma upsert_unmatched:
  assumes "fst (selectHistory (dedup_query data sqlData) w) = []"
  shows "upsert data sqlData w =
     w\<lparr>w_list := (if visible w data then data # w_list w else w_list w),
       w_store := w_store w @ [sqlData],
       w_trace := w_trace w @ [SelectHistory]
                  @ (if visible w data then [ListUnshift data] else [])
                  @ [InsertHistory sqlData]\<rparr>"
  using assms
  by (simp add: upsert_def selectHistory_def insertHistory_def list_unshift_def emit_def
      visible_def)

lemma select_emits [simp]:
  "fst (selectHistory q (emits l w)) = fst (selectHistory q w)"
  by (simp add: selectHistory_def emits_def)

lemma visible_emits [simp]: "visible (emits l w) data = visible w data"
  by (simp add: visible_def emits_def)

lemma emits_fields [simp]:
  "w_list (emits l w) = w_list w" "w_store (emits l w) = w_store w"
  "w_group (emits l w) = w_group w"
  by (simp_all add: emits_def)

lemma pass_matched:
  assumes "candidate c clip = Some (data, sqlData, l)"
    and "fst (selectHistory (dedup_query data sqlData) w) = m # rest"
  shows "w_list (processClipboard c clip w) =
           (if visible w data
            then data\<lparr>h_id := h_id m\<rparr> # filter (\<lambda>x. h_id x \<noteq> h_id m) (w_list w)
            else w_list w)"
    and "w_store (processClipboard c clip w) = refresh (h_id m) (h_createTime data) (w_store w)"
    and "pass_trace c clip w =
           l @ [SelectHistory]
             @ (if visible w data
                then [ListRemove (h_id m), ListUnshift (data\<lparr>h_id := h_id m\<rparr>)] else [])
             @ [UpdateHistory (h_id m) (h_createTime data)]"
  using assms(2)
  by (simp_all add: candidate_pass [OF assms(1)] upsert_matched [where m = m and rest = rest]
      pass_trace_def)

lemma pass_unmatched:
  assumes "candidate c clip = Some (data, sqlData, l)"
    and "fst (selectHistory (dedup_query data sqlData) w) = []"
  shows "w_list (processClipboard c clip w) =
           (if visible w data then data # w_list w else w_list w)"
    and "w_store (processClipboard c clip w) = w_store w @ [sqlData]"
    and "pass_trace c clip w =
           l @ [SelectHistory] @ (if visible w data then [ListUnshift data] else [])
             @ [InsertHistory sqlData]"
  using assms(2)
  by (simp_all add: candidate_pass [OF assms(1)] upsert_unmatched pass_trace_def)

lemma refresh_nth:
  "i < length store \<Longrightarrow>
     refresh k t store ! i = (if h_id (store ! i) = k then (store ! i)\<lparr>h_createTime := t\<rparr>
                              else store ! i)"
  by (simp add: refresh_def)

lemma candidate_log_filters:
  assumes "candidate c clip = Some (data, sqlData, l)"
  shows "filter is_store_write l = []" "filter is_list_op l = []"
proof -
  have t: "filter touches_state l = []"
    using candidate_built [OF assms] by blast
  have "\<not> touches_state e \<Longrightarrow> \<not> is_store_write e \<and> \<not> is_list_op e" for e
    by (cases e) simp_all
  with t show "filter is_store_write l = []" "filter is_list_op l = []"
    by (auto simp: filter_empty_conv)
qed

text \<open>
  C6. In a pass whose query returns a row, the store afterwards is the store before
  with \<open>createTime\<close> set to the capture's on the rows that carry the first returned
  row's id: the only store write in the trace is that update, the store has the same
  rows in the same places, each differing from before in \<open>createTime\<close> at most, and
  rows with another id are untouched. When the record's group is visible, the list
  afterwards is the capture with the matched id in front of the list before without
  the entries of that id.
\<close>

theorem match_refreshes_createTime:
  "candidate c clip = Some (data, sqlData, l)
     \<and> fst (selectHistory (dedup_query data sqlData) w) = m # rest \<longrightarrow>
   filter is_store_write (pass_trace c clip w) = [UpdateHistory (h_id m) (h_createTime data)]
   \<and> length (w_store (processClipboard c clip w)) = length (w_store w)
   \<and> (\<forall>i < length (w_store w).
         w_store (processClipboard c clip w) ! i =
           (if h_id (w_store w ! i) = h_id m
            then (w_store w ! i)\<lparr>h_createTime := h_createTime data\<rparr>
            else w_store w ! i))
   \<and> (visible w data \<longrightarrow>
        w_list (processClipboard c clip w) =
          data\<lparr>h_id := h_id m\<rparr> # filter (\<lambda>x. h_id x \<noteq> h_id m) (w_list w))"
proof (intro impI, elim conjE)
  assume cand: "candidate c clip = Some (data, sqlData, l)"
    and sel: "fst (selectHistory (dedup_query data sqlData) w) = m # rest"
  note p = pass_matched [OF cand sel]
  note f = candidate_log_filters [OF cand]
  have a: "filter is_store_write (pass_trace c clip w) =
      [UpdateHistory (h_id m) (h_createTime data)]"
    using f by (simp add: p(3))
  have b: "length (w_store (processClipboard c clip w)) = length (w_store w)"
    by (simp add: p(2) refresh_def)
  have d: "\<forall>i < length (w_store w).
         w_store (processClipboard c clip w) ! i =
           (if h_id (w_store w ! i) = h_id m
            then (w_store w ! i)\<lparr>h_createTime := h_createTime data\<rparr>
            else w_store w ! i)"
    by (simp add: p(2) refresh_nth)
  have e: "visible w data \<longrightarrow>
        w_list (processClipboard c clip w) =
          data\<lparr>h_id := h_id m\<rparr> # filter (\<lambda>x. h_id x \<noteq> h_id m) (w_list w)"
    by (simp add: p(1))
  from a b d e
  show "filter is_store_write (pass_trace c clip w) = [UpdateHistory (h_id m) (h_createTime data)]
   \<and> length (w_store (processClipboard c clip w)) = length (w_store w)
   \<and> (\<forall>i < length (w_store w).
         w_store (processClipboard c clip w) ! i =
           (if h_id (w_store w ! i) = h_id m
            then (w_store w ! i)\<lparr>h_createTime := h_createTime data\<rparr>
            else w_store w ! i))
   \<and> (visible w data \<longrightarrow>
        w_list (processClipboard c clip w) =
          data\<lparr>h_id := h_id m\<rparr> # filter (\<lambda>x. h_id x \<noteq> h_id m) (w_list w))"
    by blast
qed

lemma fresh_candidate:
  "candidate example_cfg (\<lambda>k. fresh_native) = Some (fresh_capture, fresh_capture, [])"
proof -
  let ?r = "empty_result\<lparr>rc_text := Some \<lparr>t_count = 8, t_value = ''new text''\<rparr>\<rparr>"
  have rd: "readClipboardWithRetry (\<lambda>k. fresh_native) = (Inr ?r, [])"
    by (simp add: retry_cases fresh_native_def quiet_def reader_defs del: One_nat_def)
  have b: "build_record example_cfg ?r = fresh_capture"
    by (simp add: fresh_capture_def classifier_defs empty_result_def example_cfg_def
        getClipboardTextSubtype_def)
  have p: "storage_projection example_cfg fresh_capture = Inr fresh_capture"
    by (simp add: storage_projection_def fresh_capture_def)
  have e: "\<not> is_empty_result ?r"
    by (simp add: is_empty_result_def empty_result_def)
  show ?thesis
    using e p by (simp add: candidate_def rd b) (simp add: fresh_capture_def)
qed

lemma example_selects:
  "fst (selectHistory (dedup_query hi_capture hi_capture) history_world) = [stored_hi]"
  "fst (selectHistory (dedup_query hi_capture hi_capture) images_only_world) = [stored_hi]"
  "fst (selectHistory (dedup_query fresh_capture fresh_capture) history_world) = []"
  "fst (selectHistory (dedup_query fresh_capture fresh_capture) images_only_world) = []"
  "fst (selectHistory (dedup_query image_capture image_row) history_world) = [stored_image]"
  by (simp_all add: selectHistory_def dedup_query_def sql_eq_def history_world_def
      images_only_world_def example_captures fresh_capture_def stored_hi_def stored_image_def
      wider_image_def image_row_def)

theorem match_refreshes_createTime_witness:
  "candidate example_cfg (\<lambda>k. holds_hi) = Some (hi_capture, hi_capture, [])
   \<and> fst (selectHistory (dedup_query hi_capture hi_capture) history_world) = [stored_hi]
   \<and> filter is_store_write (pass_trace example_cfg (\<lambda>k. holds_hi) history_world) =
       [UpdateHistory ''txt-1'' ''2025-06-01 12:00:00'']
   \<and> w_store (processClipboard example_cfg (\<lambda>k. holds_hi) history_world) ! 2 = refreshed_hi
   \<and> w_store (processClipboard example_cfg (\<lambda>k. holds_hi) history_world) ! 0 = stored_image
   \<and> w_list (processClipboard example_cfg (\<lambda>k. holds_hi) history_world) =
       [hi_capture\<lparr>h_id := ''txt-1''\<rparr>, wider_image, stored_image]"
proof -
  note t = match_refreshes_createTime [where c = example_cfg and clip = "\<lambda>k. holds_hi"
      and data = hi_capture and sqlData = hi_capture and l = "[]" and w = history_world
      and m = stored_hi and rest = "[]"]
  have v: "visible history_world hi_capture"
    by (simp add: visible_def history_world_def)
  have s: "w_store history_world = [stored_image, wider_image, stored_hi]"
    "w_list history_world = [stored_hi, wider_image, stored_image]"
    by (simp_all add: history_world_def)
  have ids: "h_id stored_hi = ''txt-1''" "h_id stored_image = ''img-1''"
    "h_id wider_image = ''img-2''" "h_createTime hi_capture = ''2025-06-01 12:00:00''"
    by (simp_all add: stored_hi_def stored_image_def wider_image_def example_captures)
  from t example_candidates(2) example_selects(1) v
  have a: "filter is_store_write (pass_trace example_cfg (\<lambda>k. holds_hi) history_world) =
         [UpdateHistory (h_id stored_hi) (h_createTime hi_capture)]"
    and b: "\<forall>i < length (w_store history_world).
         w_store (processClipboard example_cfg (\<lambda>k. holds_hi) history_world) ! i =
           (if h_id (w_store history_world ! i) = h_id stored_hi
            then (w_store history_world ! i)\<lparr>h_createTime := h_createTime hi_capture\<rparr>
            else w_store history_world ! i)"
    and d: "w_list (processClipboard example_cfg (\<lambda>k. holds_hi) history_world) =
          hi_capture\<lparr>h_id := h_id stored_hi\<rparr>
          # filter (\<lambda>x. h_id x \<noteq> h_id stored_hi) (w_list history_world)"
    by blast+
  have b2: "w_store (processClipboard example_cfg (\<lambda>k. holds_hi) history_world) ! 2 = refreshed_hi"
    using b [rule_format, of 2] by (simp add: s ids refreshed_hi_def)
  have b0: "w_store (processClipboard example_cfg (\<lambda>k. holds_hi) history_world) ! 0 = stored_image"
    using b [rule_format, of 0] by (simp add: s ids)
  from a b2 b0 d example_candidates(2) example_selects(1) show ?thesis
    by (simp add: s ids)
qed

text \<open>
  C9. In a pass that reaches the query while the filter is neither \<open>all\<close> nor the
  record's group, the list is left as it was and the trace has no list operation; the
  store write still happens: the insert of the storage-ready record when the query
  returns nothing, the \<open>createTime\<close> update of the matched id when it returns a row.
\<close>

theorem hidden_group_keeps_list:
  "candidate c clip = Some (data, sqlData, l) \<and> w_group w \<noteq> GroupAll
     \<and> w_group w \<noteq> GroupOnly (h_group data) \<longrightarrow>
   w_list (processClipboard c clip w) = w_list w
   \<and> filter is_list_op (pass_trace c clip w) = []
   \<and> (fst (selectHistory (dedup_query data sqlData) w) = [] \<longrightarrow>
        w_store (processClipboard c clip w) = w_store w @ [sqlData]
        \<and> filter is_store_write (pass_trace c clip w) = [InsertHistory sqlData])
   \<and> (fst (selectHistory (dedup_query data sqlData) w) = m # rest \<longrightarrow>
        w_store (processClipboard c clip w) =
          map (\<lambda>r. if h_id r = h_id m then r\<lparr>h_createTime := h_createTime data\<rparr> else r)
            (w_store w)
        \<and> filter is_store_write (pass_trace c clip w) =
            [UpdateHistory (h_id m) (h_createTime data)])"
proof (intro impI, elim conjE)
  assume cand: "candidate c clip = Some (data, sqlData, l)"
    and g: "w_group w \<noteq> GroupAll" "w_group w \<noteq> GroupOnly (h_group data)"
  have nv: "\<not> visible w data"
    using g by (simp add: visible_def)
  note f = candidate_log_filters [OF cand]
  have lst: "w_list (processClipboard c clip w) = w_list w
      \<and> filter is_list_op (pass_trace c clip w) = []"
  proof (cases "fst (selectHistory (dedup_query data sqlData) w)")
    case Nil
    show ?thesis using nv f by (simp add: pass_unmatched [OF cand Nil])
  next
    case (Cons a as)
    show ?thesis using nv f by (simp add: pass_matched [OF cand Cons])
  qed
  have new: "fst (selectHistory (dedup_query data sqlData) w) = [] \<longrightarrow>
        w_store (processClipboard c clip w) = w_store w @ [sqlData]
        \<and> filter is_store_write (pass_trace c clip w) = [InsertHistory sqlData]"
    using nv f by (auto simp: pass_unmatched [OF cand])
  have old: "fst (selectHistory (dedup_query data sqlData) w) = m # rest \<longrightarrow>
        w_store (processClipboard c clip w) =
          map (\<lambda>r. if h_id r = h_id m then r\<lparr>h_createTime := h_createTime data\<rparr> else r)
            (w_store w)
        \<and> filter is_store_write (pass_trace c clip w) =
            [UpdateHistory (h_id m) (h_createTime data)]"
    using nv f by (auto simp: pass_matched [OF cand] refresh_def)
  from lst new old
  show "w_list (processClipboard c clip w) = w_list w
   \<and> filter is_list_op (pass_trace c clip w) = []
   \<and> (fst (selectHistory (dedup_query data sqlData) w) = [] \<longrightarrow>
        w_store (processClipboard c clip w) = w_store w @ [sqlData]
        \<and> filter is_store_write (pass_trace c clip w) = [InsertHistory sqlData])
   \<and> (fst (selectHistory (dedup_query data sqlData) w) = m # rest \<longrightarrow>
        w_store (processClipboard c clip w) =
          map (\<lambda>r. if h_id r = h_id m then r\<lparr>h_createTime := h_createTime data\<rparr> else r)
            (w_store w)
        \<and> filter is_store_write (pass_trace c clip w) =
            [UpdateHistory (h_id m) (h_createTime data)])"
    by blast
qed

theorem hidden_group_keeps_list_witness:
  "w_group images_only_world = GroupOnly GImage \<and> h_group fresh_capture = GText
   \<and> h_group hi_capture = GText
   \<and> w_list (processClipboard example_cfg (\<lambda>k. fresh_native) images_only_world) =
       [stored_hi, wider_image, stored_image]
   \<and> w_store (processClipboard example_cfg (\<lambda>k. fresh_native) images_only_world) =
       [stored_image, wider_image, stored_hi, fresh_capture]
   \<and> w_list (processClipboard example_cfg (\<lambda>k. holds_hi) images_only_world) =
       [stored_hi, wider_image, stored_image]
   \<and> w_store (processClipboard example_cfg (\<lambda>k. holds_hi) images_only_world) =
       [stored_image, wider_image, refreshed_hi]"
proof -
  have g: "w_group images_only_world = GroupOnly GImage" "h_group fresh_capture = GText"
    "h_group hi_capture = GText"
    "w_list images_only_world = [stored_hi, wider_image, stored_image]"
    "w_store images_only_world = [stored_image, wider_image, stored_hi]"
    by (simp_all add: images_only_world_def history_world_def fresh_capture_def
        example_captures)
  have ids: "h_id stored_hi = ''txt-1''" "h_id stored_image = ''img-1''"
    "h_id wider_image = ''img-2''" "h_createTime hi_capture = ''2025-06-01 12:00:00''"
    by (simp_all add: stored_hi_def stored_image_def wider_image_def example_captures)
  have a: "w_list (processClipboard example_cfg (\<lambda>k. fresh_native) images_only_world) =
       [stored_hi, wider_image, stored_image]
   \<and> w_store (processClipboard example_cfg (\<lambda>k. fresh_native) images_only_world) =
       [stored_image, wider_image, stored_hi, fresh_capture]"
    using hidden_group_keeps_list [where c = example_cfg and clip = "\<lambda>k. fresh_native"
        and data = fresh_capture and sqlData = fresh_capture and l = "[]"
        and w = images_only_world] fresh_candidate example_selects(4)
    by (simp add: g)
  have b: "w_list (processClipboard example_cfg (\<lambda>k. holds_hi) images_only_world) =
       [stored_hi, wider_image, stored_image]
   \<and> w_store (processClipboard example_cfg (\<lambda>k. holds_hi) images_only_world) =
       [stored_image, wider_image, refreshed_hi]"
    using hidden_group_keeps_list [where c = example_cfg and clip = "\<lambda>k. holds_hi"
        and data = hi_capture and sqlData = hi_capture and l = "[]"
        and w = images_only_world and m = stored_hi and rest = "[]"]
      example_candidates(2) example_selects(2)
    by (simp add: g ids refreshed_hi_def)
  from a b g show ?thesis by simp
qed

lemma occurs_before_skip:
  "filter P l = [] \<Longrightarrow> filter Q l = [] \<Longrightarrow> occurs_before P Q (l @ t) = occurs_before P Q t"
  by (induction l) (auto split: if_splits)

text \<open>
  C7, as the code has it. In a pass that reaches the query with the record's group
  visible: when the query returns nothing, the trace of the pass is the read's log,
  the query, the insertion in the list, and then the store insert; when it returns a
  row, the trace is the read's log, the query, the removal from the list, the
  reinsertion in front, and then the store's \<open>createTime\<close> update. In both cases a
  list operation precedes the store write and no store write precedes a list
  operation.
\<close>

theorem upsert_order:
  "candidate c clip = Some (data, sqlData, l) \<and> visible w data \<longrightarrow>
   (fst (selectHistory (dedup_query data sqlData) w) = [] \<longrightarrow>
      pass_trace c clip w = l @ [SelectHistory, ListUnshift data, InsertHistory sqlData])
   \<and> (fst (selectHistory (dedup_query data sqlData) w) = m # rest \<longrightarrow>
      pass_trace c clip w =
        l @ [SelectHistory, ListRemove (h_id m), ListUnshift (data\<lparr>h_id := h_id m\<rparr>),
             UpdateHistory (h_id m) (h_createTime data)])
   \<and> occurs_before is_list_op is_store_write (pass_trace c clip w)
   \<and> \<not> occurs_before is_store_write is_list_op (pass_trace c clip w)"
proof (intro impI, elim conjE)
  assume cand: "candidate c clip = Some (data, sqlData, l)" and v: "visible w data"
  note f = candidate_log_filters [OF cand]
  have new: "fst (selectHistory (dedup_query data sqlData) w) = [] \<longrightarrow>
      pass_trace c clip w = l @ [SelectHistory, ListUnshift data, InsertHistory sqlData]"
    using v by (auto simp: pass_unmatched [OF cand])
  have old: "fst (selectHistory (dedup_query data sqlData) w) = m # rest \<longrightarrow>
      pass_trace c clip w =
        l @ [SelectHistory, ListRemove (h_id m), ListUnshift (data\<lparr>h_id := h_id m\<rparr>),
             UpdateHistory (h_id m) (h_createTime data)]"
    using v by (auto simp: pass_matched [OF cand])
  have ord: "occurs_before is_list_op is_store_write (pass_trace c clip w)
      \<and> \<not> occurs_before is_store_write is_list_op (pass_trace c clip w)"
  proof (cases "fst (selectHistory (dedup_query data sqlData) w)")
    case Nil
    show ?thesis
      using v f
      by (simp add: pass_unmatched [OF cand Nil] occurs_before_skip)
  next
    case (Cons a as)
    show ?thesis
      using v f
      by (simp add: pass_matched [OF cand Cons] occurs_before_skip)
  qed
  from new old ord
  show "(fst (selectHistory (dedup_query data sqlData) w) = [] \<longrightarrow>
      pass_trace c clip w = l @ [SelectHistory, ListUnshift data, InsertHistory sqlData])
   \<and> (fst (selectHistory (dedup_query data sqlData) w) = m # rest \<longrightarrow>
      pass_trace c clip w =
        l @ [SelectHistory, ListRemove (h_id m), ListUnshift (data\<lparr>h_id := h_id m\<rparr>),
             UpdateHistory (h_id m) (h_createTime data)])
   \<and> occurs_before is_list_op is_store_write (pass_trace c clip w)
   \<and> \<not> occurs_before is_store_write is_list_op (pass_trace c clip w)"
    by blast
qed

lemma example_visible:
  "visible history_world hi_capture" "visible history_world fresh_capture"
  "visible history_world image_capture" "visible empty_world image_capture"
  by (simp_all add: visible_def history_world_def empty_world_def)

theorem upsert_order_witness:
  "pass_trace example_cfg (\<lambda>k. fresh_native) history_world =
     [SelectHistory, ListUnshift fresh_capture, InsertHistory fresh_capture]
   \<and> pass_trace example_cfg (\<lambda>k. image_native) history_world =
     [SelectHistory, ListRemove ''img-1'', ListUnshift (image_capture\<lparr>h_id := ''img-1''\<rparr>),
      UpdateHistory ''img-1'' ''2025-06-01 12:00:00'']"
proof -
  have ids: "h_id stored_image = ''img-1''" "h_createTime image_capture = ''2025-06-01 12:00:00''"
    by (simp_all add: stored_image_def example_captures)
  have a: "pass_trace example_cfg (\<lambda>k. fresh_native) history_world =
     [SelectHistory, ListUnshift fresh_capture, InsertHistory fresh_capture]"
    using upsert_order [where c = example_cfg and clip = "\<lambda>k. fresh_native"
        and data = fresh_capture and sqlData = fresh_capture and l = "[]"
        and w = history_world] fresh_candidate example_selects(3) example_visible(2)
    by simp
  have b: "pass_trace example_cfg (\<lambda>k. image_native) history_world =
     [SelectHistory, ListRemove ''img-1'', ListUnshift (image_capture\<lparr>h_id := ''img-1''\<rparr>),
      UpdateHistory ''img-1'' ''2025-06-01 12:00:00'']"
    using upsert_order [where c = example_cfg and clip = "\<lambda>k. image_native"
        and data = image_capture and sqlData = image_row and l = "[]"
        and w = history_world and m = stored_image and rest = "[]"]
      example_candidates(1) example_selects(5) example_visible(3)
    by (simp add: ids)
  from a b show ?thesis by simp
qed

text \<open>
  C7 as stated fails: with \<open>hi\<close> captured again while its record is stored and
  visible, the list is reconciled first and the store update is the last effect of the
  pass, so no store write precedes a list operation.
\<close>

theorem store_update_first_counterexample:
  "pass_trace example_cfg (\<lambda>k. holds_hi) history_world =
     [SelectHistory, ListRemove ''txt-1'', ListUnshift (hi_capture\<lparr>h_id := ''txt-1''\<rparr>),
      UpdateHistory ''txt-1'' ''2025-06-01 12:00:00'']
   \<and> \<not> occurs_before is_store_write is_list_op
         (pass_trace example_cfg (\<lambda>k. holds_hi) history_world)"
proof -
  have ids: "h_id stored_hi = ''txt-1''" "h_createTime hi_capture = ''2025-06-01 12:00:00''"
    by (simp_all add: stored_hi_def example_captures)
  have "pass_trace example_cfg (\<lambda>k. holds_hi) history_world =
     [SelectHistory, ListRemove ''txt-1'', ListUnshift (hi_capture\<lparr>h_id := ''txt-1''\<rparr>),
      UpdateHistory ''txt-1'' ''2025-06-01 12:00:00'']"
    using pass_matched(3) [OF example_candidates(2) example_selects(1)] example_visible(1)
    by (simp add: ids)
  then show ?thesis by simp
qed

lemma selected_row:
  assumes "fst (selectHistory q w) = m # rest"
  shows "m \<in> set (w_store w)" "q m"
proof -
  have "m \<in> set (filter q (w_store w))"
    using assms by (simp add: selectHistory_def)
  then show "m \<in> set (w_store w)" "q m" by simp_all
qed

lemma matched_type:
  assumes "candidate c clip = Some (data, sqlData, l)" and "dedup_query data sqlData m"
  shows "h_type m = h_type data"
  using assms(2) candidate_values(1) [OF assms(1)]
  by (auto simp: dedup_query_def sql_eq_def split: if_splits)

lemma refreshed_member:
  "m \<in> set store \<Longrightarrow> m\<lparr>h_createTime := t\<rparr> \<in> set (refresh (h_id m) t store)"
  by (force simp: refresh_def)

text \<open>
  C10, as the code has it. The storage-ready record differs from the capture in
  \<open>value\<close> only, and only for an image (the result of \<open>fullName\<close>) and for files (the
  serialised path array). In a pass that reaches the query with the record's group
  visible: when the query returns nothing, the capture itself, with the transient path
  or the path array, is put in front of the list and the storage-ready record is
  appended to the store; when the query returns a row, the capture with the matched id
  is put in front of the list, and the store holds the matched row with the capture's
  \<open>createTime\<close>, which has the capture's type.
\<close>

theorem projection_leaves_capture:
  "candidate c clip = Some (data, sqlData, l) \<and> visible w data \<longrightarrow>
   sqlData = data\<lparr>h_value := h_value sqlData\<rparr>
   \<and> (h_type data = Some Image \<longrightarrow>
        (\<exists>p d. h_value data = Some (Str p) \<and> fullName c (h_value data) = Inr d
               \<and> h_value sqlData = Some (Str d)))
   \<and> (h_type data = Some Files \<longrightarrow>
        (\<exists>ps. h_value data = Some (Paths ps)
              \<and> h_value sqlData = Some (Str (stringify c (Paths ps)))))
   \<and> (h_type data \<noteq> Some Image \<and> h_type data \<noteq> Some Files \<longrightarrow> sqlData = data)
   \<and> (fst (selectHistory (dedup_query data sqlData) w) = [] \<longrightarrow>
        w_list (processClipboard c clip w) = data # w_list w
        \<and> w_store (processClipboard c clip w) = w_store w @ [sqlData])
   \<and> (fst (selectHistory (dedup_query data sqlData) w) = m # rest \<longrightarrow>
        w_list (processClipboard c clip w) =
          data\<lparr>h_id := h_id m\<rparr> # filter (\<lambda>x. h_id x \<noteq> h_id m) (w_list w)
        \<and> m\<lparr>h_createTime := h_createTime data\<rparr> \<in> set (w_store (processClipboard c clip w))
        \<and> h_type m = h_type data)"
proof (intro impI, elim conjE)
  assume cand: "candidate c clip = Some (data, sqlData, l)" and v: "visible w data"
  obtain r where r: "data = build_record c r" "storage_projection c data = Inr sqlData"
    using candidate_built [OF cand] by blast
  note p = projection_fields [OF r(2)]
  have a: "sqlData = data\<lparr>h_value := h_value sqlData\<rparr>" by (rule p(1))
  have iv: "h_type data = Some Image \<longrightarrow>
        (\<exists>p d. h_value data = Some (Str p) \<and> fullName c (h_value data) = Inr d
               \<and> h_value sqlData = Some (Str d))"
    using built_fields(2) [of c r] p(2) r(1) by auto
  have fv: "h_type data = Some Files \<longrightarrow>
        (\<exists>ps. h_value data = Some (Paths ps)
              \<and> h_value sqlData = Some (Str (stringify c (Paths ps))))"
    using built_fields(3) [of c r] p(3) r(1) by auto
  have ov: "h_type data \<noteq> Some Image \<and> h_type data \<noteq> Some Files \<longrightarrow> sqlData = data"
    using p(4) by blast
  have new: "fst (selectHistory (dedup_query data sqlData) w) = [] \<longrightarrow>
        w_list (processClipboard c clip w) = data # w_list w
        \<and> w_store (processClipboard c clip w) = w_store w @ [sqlData]"
    using v by (auto simp: pass_unmatched [OF cand])
  have old: "fst (selectHistory (dedup_query data sqlData) w) = m # rest \<longrightarrow>
        w_list (processClipboard c clip w) =
          data\<lparr>h_id := h_id m\<rparr> # filter (\<lambda>x. h_id x \<noteq> h_id m) (w_list w)
        \<and> m\<lparr>h_createTime := h_createTime data\<rparr> \<in> set (w_store (processClipboard c clip w))
        \<and> h_type m = h_type data"
  proof
    assume sel: "fst (selectHistory (dedup_query data sqlData) w) = m # rest"
    note s = selected_row [OF sel]
    show "w_list (processClipboard c clip w) =
          data\<lparr>h_id := h_id m\<rparr> # filter (\<lambda>x. h_id x \<noteq> h_id m) (w_list w)
        \<and> m\<lparr>h_createTime := h_createTime data\<rparr> \<in> set (w_store (processClipboard c clip w))
        \<and> h_type m = h_type data"
      using v refreshed_member [OF s(1)] matched_type [OF cand s(2)]
      by (simp add: pass_matched [OF cand sel])
  qed
  from a iv fv ov new old
  show "sqlData = data\<lparr>h_value := h_value sqlData\<rparr>
   \<and> (h_type data = Some Image \<longrightarrow>
        (\<exists>p d. h_value data = Some (Str p) \<and> fullName c (h_value data) = Inr d
               \<and> h_value sqlData = Some (Str d)))
   \<and> (h_type data = Some Files \<longrightarrow>
        (\<exists>ps. h_value data = Some (Paths ps)
              \<and> h_value sqlData = Some (Str (stringify c (Paths ps)))))
   \<and> (h_type data \<noteq> Some Image \<and> h_type data \<noteq> Some Files \<longrightarrow> sqlData = data)
   \<and> (fst (selectHistory (dedup_query data sqlData) w) = [] \<longrightarrow>
        w_list (processClipboard c clip w) = data # w_list w
        \<and> w_store (processClipboard c clip w) = w_store w @ [sqlData])
   \<and> (fst (selectHistory (dedup_query data sqlData) w) = m # rest \<longrightarrow>
        w_list (processClipboard c clip w) =
          data\<lparr>h_id := h_id m\<rparr> # filter (\<lambda>x. h_id x \<noteq> h_id m) (w_list w)
        \<and> m\<lparr>h_createTime := h_createTime data\<rparr> \<in> set (w_store (processClipboard c clip w))
        \<and> h_type m = h_type data)"
    by blast
qed

lemma history_world_fields:
  "w_list history_world = [stored_hi, wider_image, stored_image]"
  "w_store history_world = [stored_image, wider_image, stored_hi]"
  by (simp_all add: history_world_def)

theorem projection_leaves_capture_witness:
  "w_list (processClipboard example_cfg (\<lambda>k. image_native) empty_world) = [image_capture]
   \<and> w_store (processClipboard example_cfg (\<lambda>k. image_native) empty_world) = [image_row]
   \<and> h_value image_capture = Some (Str ''tmp/a.png'')
   \<and> h_value image_row = Some (Str ''store/tmp/a.png'')
   \<and> image_row = image_capture\<lparr>h_value := h_value image_row\<rparr>
   \<and> w_list (processClipboard example_cfg (\<lambda>k. image_native) history_world) =
       [image_capture\<lparr>h_id := ''img-1''\<rparr>, stored_hi, wider_image]
   \<and> stored_image\<lparr>h_createTime := ''2025-06-01 12:00:00''\<rparr>
       \<in> set (w_store (processClipboard example_cfg (\<lambda>k. image_native) history_world))
   \<and> w_list (processClipboard example_cfg (\<lambda>k. files_native) empty_world) = [files_capture]
   \<and> w_store (processClipboard example_cfg (\<lambda>k. files_native) empty_world) = [files_row]
   \<and> h_value files_capture = Some (Paths [''a.txt'', ''b.txt''])
   \<and> h_value files_row = Some (Str ''[a.txt,b.txt]'')"
proof -
  have fv: "visible empty_world files_capture"
    by (simp add: visible_def empty_world_def)
  have fc: "w_list (processClipboard example_cfg (\<lambda>k. files_native) empty_world) = [files_capture]
   \<and> w_store (processClipboard example_cfg (\<lambda>k. files_native) empty_world) = [files_row]"
    using projection_leaves_capture [where c = example_cfg and clip = "\<lambda>k. files_native"
        and data = files_capture and sqlData = files_row and l = "[]" and w = empty_world]
      files_candidate fv files_select(2)
    by (simp add: example_simps)
  have fvals: "h_value files_capture = Some (Paths [''a.txt'', ''b.txt''])"
    "h_value files_row = Some (Str ''[a.txt,b.txt]'')"
    by (simp_all add: files_capture_def files_row_def)
  have sel0: "fst (selectHistory (dedup_query image_capture image_row) empty_world) = []"
    by (simp add: selectHistory_def empty_world_def)
  have ids: "h_id stored_hi = ''txt-1''" "h_id stored_image = ''img-1''"
    "h_id wider_image = ''img-2''" "h_createTime image_capture = ''2025-06-01 12:00:00''"
    "h_type image_capture = Some Image"
    by (simp_all add: stored_hi_def stored_image_def wider_image_def example_captures)
  have vals: "h_value image_capture = Some (Str ''tmp/a.png'')"
    "h_value image_row = Some (Str ''store/tmp/a.png'')"
    by (simp_all add: example_captures image_row_def)
  have a: "w_list (processClipboard example_cfg (\<lambda>k. image_native) empty_world) = [image_capture]
   \<and> w_store (processClipboard example_cfg (\<lambda>k. image_native) empty_world) = [image_row]
   \<and> image_row = image_capture\<lparr>h_value := h_value image_row\<rparr>"
    using projection_leaves_capture [where c = example_cfg and clip = "\<lambda>k. image_native"
        and data = image_capture and sqlData = image_row and l = "[]" and w = empty_world]
      example_candidates(1) example_visible(4) sel0
    by (simp add: example_simps)
  have b: "w_list (processClipboard example_cfg (\<lambda>k. image_native) history_world) =
       [image_capture\<lparr>h_id := ''img-1''\<rparr>, stored_hi, wider_image]
   \<and> stored_image\<lparr>h_createTime := ''2025-06-01 12:00:00''\<rparr>
       \<in> set (w_store (processClipboard example_cfg (\<lambda>k. image_native) history_world))"
    using projection_leaves_capture [where c = example_cfg and clip = "\<lambda>k. image_native"
        and data = image_capture and sqlData = image_row and l = "[]" and w = history_world
        and m = stored_image and rest = "[]"]
      example_candidates(1) example_visible(3) example_selects(5)
    by (simp add: ids history_world_fields)
  from a b vals fc fvals show ?thesis by simp
qed

text \<open>
  C10 as stated fails where a record is reconciled: \<open>hi\<close> is stored as a
  favourite; after it is captured again, the list entry and the stored record of the
  same id differ in \<open>favorite\<close>, a field other than \<open>value\<close>.
\<close>

theorem reconciled_entry_counterexample:
  "w_list (processClipboard example_cfg (\<lambda>k. holds_hi) history_world) =
     [hi_capture\<lparr>h_id := ''txt-1''\<rparr>, wider_image, stored_image]
   \<and> w_store (processClipboard example_cfg (\<lambda>k. holds_hi) history_world) =
     [stored_image, wider_image, refreshed_hi]
   \<and> h_id (hi_capture\<lparr>h_id := ''txt-1''\<rparr>) = h_id refreshed_hi
   \<and> h_value (hi_capture\<lparr>h_id := ''txt-1''\<rparr>) = h_value refreshed_hi
   \<and> h_favorite (hi_capture\<lparr>h_id := ''txt-1''\<rparr>) \<noteq> h_favorite refreshed_hi"
proof -
  have ids: "h_id stored_hi = ''txt-1''" "h_id stored_image = ''img-1''"
    "h_id wider_image = ''img-2''" "h_createTime hi_capture = ''2025-06-01 12:00:00''"
    by (simp_all add: stored_hi_def stored_image_def wider_image_def example_captures)
  note p = pass_matched [OF example_candidates(2) example_selects(1)]
  have l: "w_list (processClipboard example_cfg (\<lambda>k. holds_hi) history_world) =
     [hi_capture\<lparr>h_id := ''txt-1''\<rparr>, wider_image, stored_image]"
    using example_visible(1) by (simp add: p(1) ids history_world_fields)
  have s: "w_store (processClipboard example_cfg (\<lambda>k. holds_hi) history_world) =
     [stored_image, wider_image, refreshed_hi]"
    by (simp add: p(2) ids history_world_fields refresh_def refreshed_hi_def)
  have f: "h_id (hi_capture\<lparr>h_id := ''txt-1''\<rparr>) = h_id refreshed_hi"
    "h_value (hi_capture\<lparr>h_id := ''txt-1''\<rparr>) = h_value refreshed_hi"
    "h_favorite (hi_capture\<lparr>h_id := ''txt-1''\<rparr>) \<noteq> h_favorite refreshed_hi"
    by (simp_all add: refreshed_hi_def stored_hi_def example_captures)
  from l s f show ?thesis by simp
qed

section \<open>The debouncer\<close>

lemma timer_callback_fields [simp]:
  "debounceTimer (timer_callback d) = None"
  "beforeReads (timer_callback d) = beforeReads d"
  "started (timer_callback d) = (if isProcessing d then started d else started d + 1)"
  "skipped (timer_callback d) = (if isProcessing d then skipped d + 1 else skipped d)"
  "isProcessing (timer_callback d) = True"
  "inFlight (timer_callback d) = (if isProcessing d then inFlight d else inFlight d + 1)"
  by (simp_all add: timer_callback_def Let_def)

lemma on_changed_fields [simp]:
  "debounceTimer (on_clipboard_changed t d) = Some (t + DEBOUNCE_MS)"
  "beforeReads (on_clipboard_changed t d) = beforeReads d + 1"
  "started (on_clipboard_changed t d) = started d"
  "skipped (on_clipboard_changed t d) = skipped d"
  "isProcessing (on_clipboard_changed t d) = isProcessing d"
  "inFlight (on_clipboard_changed t d) = inFlight d"
  by (simp_all add: on_clipboard_changed_def)

lemma pass_settled_fields [simp]:
  "debounceTimer (pass_settled d) = debounceTimer d"
  "beforeReads (pass_settled d) = beforeReads d"
  "started (pass_settled d) = started d"
  "skipped (pass_settled d) = skipped d"
  "isProcessing (pass_settled d) = False"
  "inFlight (pass_settled d) = inFlight d - 1"
  by (simp_all add: pass_settled_def)

lemma fire_due_cases:
  "debounceTimer d = None \<Longrightarrow> fire_due now d = d"
  "debounceTimer d = Some due \<Longrightarrow> now < due \<Longrightarrow> fire_due now d = d"
  "debounceTimer d = Some due \<Longrightarrow> due \<le> now \<Longrightarrow> fire_due now d = timer_callback d"
  by (simp_all add: fire_due_def)

lemma fire_due_before_reads [simp]: "beforeReads (fire_due now d) = beforeReads d"
  by (simp add: fire_due_def split: option.splits)

lemma step_before_reads:
  "beforeReads (step d e) = beforeReads d + (if is_changed e then 1 else 0)"
  by (cases e) (simp_all add: Let_def)

lemma run_before_reads:
  "beforeReads (foldl step d evs) = beforeReads d + length (filter is_changed evs)"
  by (induction evs arbitrary: d) (simp_all add: step_before_reads)

lemma burst_fold:
  assumes "debounceTimer d = Some (t + DEBOUNCE_MS)" "within_window t ts"
  shows "debounceTimer (foldl step d (map Changed ts)) = Some (last (t # ts) + DEBOUNCE_MS)
    \<and> started (foldl step d (map Changed ts)) = started d
    \<and> skipped (foldl step d (map Changed ts)) = skipped d
    \<and> isProcessing (foldl step d (map Changed ts)) = isProcessing d"
  using assms
proof (induction ts arbitrary: d t)
  case Nil
  then show ?case by simp
next
  case (Cons u us)
  have nf: "fire_due u d = d"
    using Cons.prems by (simp add: fire_due_cases(2))
  let ?d = "step d (Changed u)"
  have "debounceTimer ?d = Some (u + DEBOUNCE_MS)" by simp
  moreover have "within_window u us" using Cons.prems by simp
  ultimately have
    "debounceTimer (foldl step ?d (map Changed us)) = Some (last (u # us) + DEBOUNCE_MS)
    \<and> started (foldl step ?d (map Changed us)) = started ?d
    \<and> skipped (foldl step ?d (map Changed us)) = skipped ?d
    \<and> isProcessing (foldl step ?d (map Changed us)) = isProcessing ?d"
    by (rule Cons.IH)
  then show ?case by (simp add: nf)
qed

lemma burst_one_firing:
  assumes "debounceTimer d = None" "within_window t ts" "last (t # ts) + DEBOUNCE_MS \<le> horizon"
  shows "started (run (map Changed (t # ts)) horizon d)
           + skipped (run (map Changed (t # ts)) horizon d) = started d + skipped d + 1"
    and "\<not> isProcessing d \<Longrightarrow> started (run (map Changed (t # ts)) horizon d) = started d + 1"
    and "isProcessing d \<Longrightarrow> started (run (map Changed (t # ts)) horizon d) = started d"
proof -
  let ?d1 = "step d (Changed t)"
  have d1: "debounceTimer ?d1 = Some (t + DEBOUNCE_MS)" "started ?d1 = started d"
    "skipped ?d1 = skipped d" "isProcessing ?d1 = isProcessing d"
    using assms(1) by (simp_all add: fire_due_cases(1))
  let ?d2 = "foldl step ?d1 (map Changed ts)"
  have d2: "debounceTimer ?d2 = Some (last (t # ts) + DEBOUNCE_MS)" "started ?d2 = started d"
    "skipped ?d2 = skipped d" "isProcessing ?d2 = isProcessing d"
    using burst_fold [OF d1(1) assms(2)] d1 by simp_all
  have r: "run (map Changed (t # ts)) horizon d = timer_callback ?d2"
    using fire_due_cases(3) [OF d2(1) assms(3)] by (simp add: run_def)
  show "started (run (map Changed (t # ts)) horizon d)
           + skipped (run (map Changed (t # ts)) horizon d) = started d + skipped d + 1"
    unfolding r using d2 by simp
  show "\<not> isProcessing d \<Longrightarrow> started (run (map Changed (t # ts)) horizon d) = started d + 1"
    unfolding r using d2 by simp
  show "isProcessing d \<Longrightarrow> started (run (map Changed (t # ts)) horizon d) = started d"
    unfolding r using d2 by simp
qed

lemma count_settled [simp]:
  "firings (pass_settled d) = firings d" "pending (pass_settled d) = pending d"
  by (simp_all add: firings_def pending_def)

lemma count_changed [simp]:
  "firings (on_clipboard_changed t d) = firings d" "pending (on_clipboard_changed t d) = 1"
  by (simp_all add: firings_def pending_def)

lemma fire_due_count:
  "firings (fire_due now d) + pending (fire_due now d) = firings d + pending d"
  by (auto simp: fire_due_def firings_def pending_def split: option.splits)

lemma fire_due_follows:
  "timer_follows d lc \<Longrightarrow> timer_follows (fire_due now d) lc"
  by (auto simp: fire_due_def timer_follows_def split: option.splits)

lemma settled_step:
  assumes "timer_follows d lc"
  shows "timer_follows (step d (Settled t)) lc"
    and "firings (step d (Settled t)) + pending (step d (Settled t)) = firings d + pending d"
proof -
  have "timer_follows (fire_due t d) lc" by (rule fire_due_follows [OF assms])
  then show "timer_follows (step d (Settled t)) lc"
    by (simp add: Let_def timer_follows_def)
  show "firings (step d (Settled t)) + pending (step d (Settled t)) = firings d + pending d"
    using fire_due_count [of t d] by (simp add: Let_def)
qed

lemma changed_step:
  assumes "timer_follows d lc" "case lc of None \<Rightarrow> True | Some u \<Rightarrow> u + DEBOUNCE_MS \<le> t"
  shows "timer_follows (step d (Changed t)) (Some t)"
    and "firings (step d (Changed t)) + pending (step d (Changed t)) = firings d + pending d + 1"
proof -
  show "timer_follows (step d (Changed t)) (Some t)"
    by (simp add: timer_follows_def)
  have "pending (fire_due t d) = 0"
    using assms by (auto simp: timer_follows_def fire_due_def pending_def)
  then show "firings (step d (Changed t)) + pending (step d (Changed t))
      = firings d + pending d + 1"
    using fire_due_count [of t d] by simp
qed

lemma spaced_fold:
  assumes "timer_follows d lc" "spaced_from lc evs"
  shows "timer_follows (foldl step d evs) (last_change lc evs)
    \<and> firings (foldl step d evs) + pending (foldl step d evs)
        = firings d + pending d + length (filter is_changed evs)"
  using assms
proof (induction lc evs arbitrary: d rule: spaced_from.induct)
  case (1 lc)
  then show ?case by simp
next
  case (2 lc t es)
  note s = settled_step [OF "2.prems"(1), of t]
  have "timer_follows (foldl step (step d (Settled t)) es) (last_change lc es)
    \<and> firings (foldl step (step d (Settled t)) es) + pending (foldl step (step d (Settled t)) es)
        = firings (step d (Settled t)) + pending (step d (Settled t))
          + length (filter is_changed es)"
    using "2.IH" [OF s(1)] "2.prems"(2) by simp
  then show ?case using s(2) by simp
next
  case (3 lc t es)
  have ok: "case lc of None \<Rightarrow> True | Some u \<Rightarrow> u + DEBOUNCE_MS \<le> t"
    and rest: "spaced_from (Some t) es"
    using "3.prems"(2) by (simp_all split: option.splits)
  note c = changed_step [OF "3.prems"(1) ok]
  have "timer_follows (foldl step (step d (Changed t)) es) (last_change (Some t) es)
    \<and> firings (foldl step (step d (Changed t)) es) + pending (foldl step (step d (Changed t)) es)
        = firings (step d (Changed t)) + pending (step d (Changed t))
          + length (filter is_changed es)"
    using "3.IH" [OF c(1) rest] .
  then show ?case using c(2) by simp
qed

lemma spaced_firings:
  assumes "debounceTimer d = None" "spaced_from None evs"
    and "case last_change None evs of None \<Rightarrow> True | Some u \<Rightarrow> u + DEBOUNCE_MS \<le> horizon"
  shows "started (run evs horizon d) + skipped (run evs horizon d)
           = started d + skipped d + length (filter is_changed evs)"
proof -
  let ?d = "foldl step d evs"
  have f: "timer_follows d None" "pending d = 0"
    using assms(1) by (simp_all add: timer_follows_def pending_def)
  have s: "timer_follows ?d (last_change None evs)"
    "firings ?d + pending ?d = firings d + length (filter is_changed evs)"
    using spaced_fold [OF f(1) assms(2)] f(2) by simp_all
  have "pending (fire_due horizon ?d) = 0"
    using s(1) assms(3) by (auto simp: timer_follows_def fire_due_def pending_def)
  then have "firings (run evs horizon d) = firings d + length (filter is_changed evs)"
    using fire_due_count [of horizon ?d] s(2) by (simp add: run_def)
  then show ?thesis by (simp add: firings_def)
qed

lemma prompt_fold:
  assumes "debounceTimer d = None" "\<not> isProcessing d" "inFlight d = 0" "prompt now ps"
  shows "debounceTimer (foldl step d (events_of ps)) = None
    \<and> \<not> isProcessing (foldl step d (events_of ps))
    \<and> inFlight (foldl step d (events_of ps)) = 0
    \<and> started (foldl step d (events_of ps)) = started d + length ps
    \<and> skipped (foldl step d (events_of ps)) = skipped d"
  using assms
proof (induction ps arbitrary: d now)
  case Nil
  then show ?case by simp
next
  case (Cons p ps)
  obtain t s where p: "p = (t, s)" by (cases p)
  have due: "t + DEBOUNCE_MS \<le> s" and rest: "prompt s ps"
    using Cons.prems(4) p by simp_all
  let ?d1 = "step d (Changed t)"
  have d1: "debounceTimer ?d1 = Some (t + DEBOUNCE_MS)" "\<not> isProcessing ?d1" "inFlight ?d1 = 0"
    "started ?d1 = started d" "skipped ?d1 = skipped d"
    using Cons.prems(1-3) by (simp_all add: fire_due_cases(1))
  let ?d2 = "step ?d1 (Settled s)"
  have f: "fire_due s ?d1 = timer_callback ?d1"
    by (rule fire_due_cases(3) [OF d1(1) due])
  have d2: "debounceTimer ?d2 = None" "\<not> isProcessing ?d2" "inFlight ?d2 = 0"
    "started ?d2 = started d + 1" "skipped ?d2 = skipped d"
    using d1(2-5) by (simp_all add: f Let_def del: step.simps(1))
  have "debounceTimer (foldl step ?d2 (events_of ps)) = None
    \<and> \<not> isProcessing (foldl step ?d2 (events_of ps))
    \<and> inFlight (foldl step ?d2 (events_of ps)) = 0
    \<and> started (foldl step ?d2 (events_of ps)) = started ?d2 + length ps
    \<and> skipped (foldl step ?d2 (events_of ps)) = skipped ?d2"
    by (rule Cons.IH [OF d2(1-3) rest])
  then show ?case using d2(4,5) by (simp add: p)
qed

lemma lock_inv_fire: "lock_inv d \<Longrightarrow> lock_inv (fire_due now d)"
  by (auto simp: lock_inv_def fire_due_def split: option.splits)

lemma lock_inv_step: "lock_inv d \<Longrightarrow> lock_inv (step d e)"
proof (cases e)
  case (Changed t)
  assume "lock_inv d"
  then have "lock_inv (fire_due t d)" by (rule lock_inv_fire)
  then show ?thesis using Changed by (simp add: lock_inv_def)
next
  case (Settled t)
  assume "lock_inv d"
  then have "lock_inv (fire_due t d)" by (rule lock_inv_fire)
  then show ?thesis using Settled by (auto simp: lock_inv_def Let_def)
qed

lemma lock_inv_fold: "lock_inv d \<Longrightarrow> lock_inv (foldl step d evs)"
  by (induction evs arbitrary: d) (simp_all add: lock_inv_step)

lemma one_in_flight: "inFlight (run evs horizon idle) \<le> 1"
proof -
  have "lock_inv idle" by (simp add: lock_inv_def idle_def)
  then have "lock_inv (run evs horizon idle)"
    unfolding run_def by (intro lock_inv_fire lock_inv_fold)
  then show ?thesis by (simp add: lock_inv_def split: if_splits)
qed

lemma burst_waits:
  assumes "debounceTimer d = None" "within_window t ts" "horizon < last (t # ts) + DEBOUNCE_MS"
  shows "started (run (map Changed (t # ts)) horizon d) = started d"
    and "skipped (run (map Changed (t # ts)) horizon d) = skipped d"
proof -
  let ?d1 = "step d (Changed t)"
  have d1: "debounceTimer ?d1 = Some (t + DEBOUNCE_MS)" "started ?d1 = started d"
    "skipped ?d1 = skipped d"
    using assms(1) by (simp_all add: fire_due_cases(1))
  let ?d2 = "foldl step ?d1 (map Changed ts)"
  have d2: "debounceTimer ?d2 = Some (last (t # ts) + DEBOUNCE_MS)" "started ?d2 = started d"
    "skipped ?d2 = skipped d"
    using burst_fold [OF d1(1) assms(2)] d1 by simp_all
  have r: "run (map Changed (t # ts)) horizon d = ?d2"
    using fire_due_cases(2) [OF d2(1) assms(3)] by (simp add: run_def)
  show "started (run (map Changed (t # ts)) horizon d) = started d"
    "skipped (run (map Changed (t # ts)) horizon d) = skipped d"
    unfolding r using d2 by simp_all
qed

lemma prompt_run:
  assumes "debounceTimer d = None" "\<not> isProcessing d" "inFlight d = 0" "prompt now ps"
  shows "started (run (events_of ps) horizon d) = started d + length ps"
    and "skipped (run (events_of ps) horizon d) = skipped d"
  using prompt_fold [OF assms] by (simp_all add: run_def fire_due_cases(1))

text \<open>
  C8, as the code has it. Every notification calls the hook once and leaves one timer,
  due 300 ms later. Notifications each less than 300 ms after the one before cause no
  timer callback until 300 ms after the last of them, and exactly one then;
  notifications each more than 300 ms after the one before cause one timer callback
  each, whatever passes settle in between. A timer callback calls
  \<open>processClipboard\<close> exactly when \<open>isProcessing\<close> is off: so the burst causes one
  invocation on a debouncer that is not processing, and spaced notifications cause one
  invocation each when every pass settles before the next notification. A callback
  that finds \<open>isProcessing\<close> on only clears the timer and is counted as skipped, and
  the settling of a pass starts nothing. From the initial state at most one pass is in
  flight, at every time.
\<close>

theorem debounce_and_lock:
  "beforeReads (step d (Changed t)) = beforeReads d + 1
   \<and> debounceTimer (step d (Changed t)) = Some (t + 300)
   \<and> beforeReads (run evs horizon d) = beforeReads d + length (filter is_changed evs)
   \<and> (debounceTimer d = None \<and> within_window t ts \<and> horizon < last (t # ts) + 300 \<longrightarrow>
        started (run (map Changed (t # ts)) horizon d) = started d
        \<and> skipped (run (map Changed (t # ts)) horizon d) = skipped d)
   \<and> (debounceTimer d = None \<and> within_window t ts \<and> last (t # ts) + 300 \<le> horizon \<longrightarrow>
        started (run (map Changed (t # ts)) horizon d)
          + skipped (run (map Changed (t # ts)) horizon d) = started d + skipped d + 1
        \<and> (\<not> isProcessing d \<longrightarrow>
             started (run (map Changed (t # ts)) horizon d) = started d + 1)
        \<and> (isProcessing d \<longrightarrow>
             started (run (map Changed (t # ts)) horizon d) = started d))
   \<and> (debounceTimer d = None \<and> spaced_from None evs
        \<and> (case last_change None evs of None \<Rightarrow> True | Some u \<Rightarrow> u + 300 \<le> horizon) \<longrightarrow>
        started (run evs horizon d) + skipped (run evs horizon d)
          = started d + skipped d + length (filter is_changed evs))
   \<and> (debounceTimer d = None \<and> \<not> isProcessing d \<and> inFlight d = 0 \<and> prompt now ps \<longrightarrow>
        started (run (events_of ps) horizon d) = started d + length ps
        \<and> skipped (run (events_of ps) horizon d) = skipped d)
   \<and> (isProcessing d \<longrightarrow>
        timer_callback d = d\<lparr>debounceTimer := None, skipped := skipped d + 1\<rparr>)
   \<and> (\<not> isProcessing d \<longrightarrow>
        started (timer_callback d) = started d + 1 \<and> skipped (timer_callback d) = skipped d
        \<and> isProcessing (timer_callback d))
   \<and> started (pass_settled d) = started d
   \<and> debounceTimer (pass_settled d) = debounceTimer d
   \<and> inFlight (run evs horizon idle) \<le> 1"
  (is "?A \<and> ?B \<and> ?C \<and> ?D \<and> ?E \<and> ?F \<and> ?G \<and> ?H \<and> ?I \<and> ?J \<and> ?K \<and> ?L")
proof -
  have A: ?A by simp
  have B: ?B by (simp add: DEBOUNCE_MS_def)
  have C: ?C by (simp add: run_def run_before_reads)
  have D: ?D using burst_waits [of d t ts horizon] by (simp add: DEBOUNCE_MS_def)
  have E: ?E using burst_one_firing [of d t ts horizon] by (simp add: DEBOUNCE_MS_def)
  have F: ?F using spaced_firings [of d evs horizon, unfolded DEBOUNCE_MS_def] by blast
  have G: ?G using prompt_run [of d now ps horizon] by simp
  have H: ?H by (simp add: timer_callback_def Let_def)
  have I: ?I by simp
  have J: ?J by simp
  have K: ?K by simp
  have L: ?L by (rule one_in_flight)
  from A B C D E F G H I J K L show ?thesis by blast
qed

theorem debounce_and_lock_witness:
  "within_window 0 [100, 250, 500]
   \<and> started (run (map Changed [0, 100, 250, 500]) 799 idle) = 0
   \<and> started (run (map Changed [0, 100, 250, 500]) 800 idle) = 1
   \<and> beforeReads (run (map Changed [0, 100, 250, 500]) 800 idle) = 4
   \<and> spaced_from None [Changed 0, Changed 1000, Settled 1400]
   \<and> started (run [Changed 0, Changed 1000, Settled 1400] 5000 idle)
       + skipped (run [Changed 0, Changed 1000, Settled 1400] 5000 idle) = 2
   \<and> prompt 0 [(0, 350), (1000, 1400)]
   \<and> started (run (events_of [(0, 350), (1000, 1400)]) 5000 idle) = 2
   \<and> skipped (run (events_of [(0, 350), (1000, 1400)]) 5000 idle) = 0
   \<and> timer_callback (timer_callback idle) = (timer_callback idle)\<lparr>skipped := 1\<rparr>
   \<and> inFlight (run [Changed 0, Changed 1000, Settled 1400] 5000 idle) \<le> 1
   \<and> started (timer_callback idle) = 1
   \<and> started (run (map Changed [0, 100]) 5000 (timer_callback idle)) = 1
   \<and> skipped (run (map Changed [0, 100]) 5000 (timer_callback idle)) = 1"
proof -
  have i: "debounceTimer idle = None" "\<not> isProcessing idle" "inFlight idle = 0"
    "started idle = 0" "skipped idle = 0" "beforeReads idle = 0"
    by (simp_all add: idle_def)
  have w: "within_window 0 [100, 250, 500]" by (simp add: DEBOUNCE_MS_def)
  have s: "spaced_from None [Changed 0, Changed 1000, Settled 1400]"
    "last_change None [Changed 0, Changed 1000, Settled 1400] = Some 1000"
    by (simp_all add: DEBOUNCE_MS_def)
  have p: "prompt 0 [(0, 350), (1000, 1400)]" by (simp add: DEBOUNCE_MS_def)
  have a: "started (run (map Changed [0, 100, 250, 500]) 799 idle) = 0"
    using debounce_and_lock [where d = idle and t = 0 and ts = "[100, 250, 500]"
        and horizon = 799] i w by simp
  have b: "started (run (map Changed [0, 100, 250, 500]) 800 idle) = 1
      \<and> beforeReads (run (map Changed [0, 100, 250, 500]) 800 idle) = 4"
    using debounce_and_lock [where d = idle and t = 0 and ts = "[100, 250, 500]"
        and horizon = 800 and evs = "map Changed [0, 100, 250, 500]"] i w by simp
  have c: "started (run [Changed 0, Changed 1000, Settled 1400] 5000 idle)
       + skipped (run [Changed 0, Changed 1000, Settled 1400] 5000 idle) = 2
      \<and> inFlight (run [Changed 0, Changed 1000, Settled 1400] 5000 idle) \<le> 1"
    using debounce_and_lock [where d = idle and horizon = 5000
        and evs = "[Changed 0, Changed 1000, Settled 1400]"] i s by simp
  have e: "started (run (events_of [(0, 350), (1000, 1400)]) 5000 idle) = 2
      \<and> skipped (run (events_of [(0, 350), (1000, 1400)]) 5000 idle) = 0"
    using debounce_and_lock [where d = idle and horizon = 5000 and now = 0
        and ps = "[(0, 350), (1000, 1400)]"] i p by simp
  have f: "timer_callback (timer_callback idle) = (timer_callback idle)\<lparr>skipped := 1\<rparr>"
    using debounce_and_lock [where d = "timer_callback idle"] i
    by (simp add: timer_callback_def Let_def idle_def)
  have w2: "within_window 0 [100]" by (simp add: DEBOUNCE_MS_def)
  have g: "started (timer_callback idle) = 1"
    using debounce_and_lock [where d = idle and evs = "[]"] i by simp
  have h: "started (run (map Changed [0, 100]) 5000 (timer_callback idle)) = 1
   \<and> skipped (run (map Changed [0, 100]) 5000 (timer_callback idle)) = 1"
    using debounce_and_lock [where d = "timer_callback idle" and t = 0 and ts = "[100]"
        and horizon = 5000 and evs = "[]"] i w2 by (simp add: DEBOUNCE_MS_def)
  from w s(1) p a b c e f g h show ?thesis by simp
qed

text \<open>
  C8 as stated fails: two notifications 1000 ms apart, with the pass of the first
  still running when the timer of the second fires (it settles at 1400 ms), cause one
  invocation, not two; the second firing is skipped and nothing runs after the pass
  settles.
\<close>

theorem spaced_notifications_counterexample:
  "spaced_from None [Changed 0, Changed 1000, Settled 1400]
   \<and> length (filter is_changed [Changed 0, Changed 1000, Settled 1400]) = 2
   \<and> started (run [Changed 0, Changed 1000, Settled 1400] 5000 idle) = 1
   \<and> skipped (run [Changed 0, Changed 1000, Settled 1400] 5000 idle) = 1"
  by (simp add: run_def fire_due_def timer_callback_def on_clipboard_changed_def
      pass_settled_def idle_def DEBOUNCE_MS_def Let_def)

end
